theory Spec2Isabelle
  imports Complex_Main "HOL-Library.AList" "HOL-Library.FSet"
begin

section \<open>Exceptions\<close>

text \<open>
  The exceptions that can arise in a run. All are subclasses of \<^verbatim>\<open>Exception\<close>, so every
  \<^verbatim>\<open>except Exception\<close> of the source catches each of them.
\<close>

datatype error =
  TypeError | KeyError | IndexError | AttributeError | OverflowError
  | PlatformError | LLMError

section \<open>Binary floating point\<close>

text \<open>
  A Python float is a binary64 number. \<open>B64 m e\<close> stands for the number \<open>m * 2 ^ e\<close>.
  Only what \<^verbatim>\<open>should_reply\<close> needs is modelled: the conversion of an integer, the
  product, and the comparison of an integer with a float.
\<close>

datatype binary64 = B64 int int

fun b64_value :: "binary64 \<Rightarrow> real" where
  "b64_value (B64 m e) = real_of_int m * 2 powr real_of_int e"

text \<open>\<^verbatim>\<open>int.bit_length\<close> of a non-negative integer.\<close>

function bit_length :: "int \<Rightarrow> int" where
  "bit_length n = (if n \<le> 0 then 0 else 1 + bit_length (n div 2))"
  by pat_completeness auto
termination
  by (relation "measure nat") auto

declare bit_length.simps [simp del]

text \<open>
  Rounding of an integer to 53 significant bits, to nearest and ties to even: what is
  left of the integer is kept when it has at most 53 bits; otherwise the low bits are
  cut off and the rest goes up by one when the part cut off is more than half a unit,
  or is exactly half and the rest is odd.
\<close>

definition round_to_53 :: "int \<Rightarrow> int" where
  "round_to_53 n =
     (let a = \<bar>n\<bar>; k = bit_length a
      in if k \<le> 53 then n
         else (let sh = nat (k - 53);
                   q = a div 2 ^ sh;
                   r = a mod 2 ^ sh;
                   half = 2 ^ (sh - 1);
                   m = (if half < r \<or> (r = half \<and> odd q) then q + 1 else q)
               in sgn n * (m * 2 ^ sh)))"

text \<open>
  The conversion of the integer operand of \<^verbatim>\<open>int * float\<close>: the integer rounded to a
  binary64 number, or \<^verbatim>\<open>OverflowError\<close> (int too large to convert to float) when the
  rounded number is beyond the largest one.
\<close>

definition float_of_int :: "int \<Rightarrow> error + binary64" where
  "float_of_int n =
     (let m = round_to_53 n
      in if 2 ^ 1024 \<le> \<bar>m\<bar> then Inl OverflowError else Inr (B64 m 0))"

text \<open>
  The product, rounded. Neither factor used here lets the product leave the range of
  normal numbers: one is an integer that has been converted, the other is \<open>0.05\<close>.
\<close>

fun float_mul :: "binary64 \<Rightarrow> binary64 \<Rightarrow> binary64" where
  "float_mul (B64 m1 e1) (B64 m2 e2) = B64 (round_to_53 (m1 * m2)) (e1 + e2)"

text \<open>\<^verbatim>\<open>s > f\<close> for an integer \<open>s\<close> and a float \<open>f\<close>: Python compares the two numbers exactly.\<close>

fun int_gt_float :: "int \<Rightarrow> binary64 \<Rightarrow> bool" where
  "int_gt_float s (B64 m e) =
     (if 0 \<le> e then m * 2 ^ nat e < s else m < s * 2 ^ nat (- e))"

section \<open>Configuration\<close>

text \<open>
  \<^verbatim>\<open>Config\<close> is a dataclass that is never instantiated: every use reads a class
  attribute (\<^verbatim>\<open>Config.min_upvotes\<close>), so the six settings are constants. Both source
  files carry the same values. Times are whole seconds; the ratio threshold is the
  binary64 number that the literal \<^verbatim>\<open>0.05\<close> denotes, \<open>3602879701896397 / 2 ^ 56\<close>.
\<close>

definition monitoring_duration :: int where
  "monitoring_duration = 21600"

definition check_interval :: int where
  "check_interval = 3600"

definition max_replies_per_thread :: nat where
  "max_replies_per_thread = 4"

definition upvote_ratio_threshold :: binary64 where
  "upvote_ratio_threshold = B64 3602879701896397 (- 56)"

definition rate_limit_delay :: int where
  "rate_limit_delay = 120"

definition min_upvotes :: int where
  "min_upvotes = 5"

section \<open>Strings\<close>

definition nl :: char where
  "nl = CHR 0x0A"

text \<open>\<^verbatim>\<open>s.split(sep)\<close> for a one-character separator: one more piece than separators.\<close>

fun str_split :: "char \<Rightarrow> string \<Rightarrow> string list" where
  "str_split sep [] = [[]]"
| "str_split sep (c # cs) =
     (if c = sep then [] # str_split sep cs
      else (case str_split sep cs of
              [] \<Rightarrow> [[c]]
            | p # ps \<Rightarrow> (c # p) # ps))"

text \<open>\<^verbatim>\<open>sep.join(pieces)\<close> for a one-character separator.\<close>

fun str_join :: "char \<Rightarrow> string list \<Rightarrow> string" where
  "str_join sep [] = []"
| "str_join sep [p] = p"
| "str_join sep (p # q # ps) = p @ sep # str_join sep (q # ps)"

text \<open>
  The two arguments of \<^verbatim>\<open>subreddit.submit\<close> in \<^verbatim>\<open>run_research\<close>:
  \<^verbatim>\<open>title=post_content.split('\n')[0]\<close> and
  \<^verbatim>\<open>selftext='\n'.join(post_content.split('\n')[1:])\<close>.
  Index 0 of an empty list would raise, so that branch is written out.
\<close>

definition submit_args :: "string \<Rightarrow> error + (string \<times> string)" where
  "submit_args post_content =
     (case str_split nl post_content of
        [] \<Rightarrow> Inl IndexError
      | title # rest \<Rightarrow> Inr (title, str_join nl rest))"

section \<open>Reply-worthiness\<close>

record comment =
  comment_id :: string
  comment_body :: string
  comment_score :: int
  comment_created_utc :: int

text \<open>
  \<^verbatim>\<open>ResponseAnalysisAgent.should_reply\<close>, the same text in both files. The second
  comparison is evaluated only when the first holds; it multiplies the post's score,
  an integer, by the float threshold, which converts the integer first.
\<close>

definition should_reply :: "comment \<Rightarrow> int \<Rightarrow> error + bool" where
  "should_reply c post_score =
     (if comment_score c > min_upvotes then
        (case float_of_int post_score of
           Inl err \<Rightarrow> Inl err
         | Inr f \<Rightarrow>
             Inr (int_gt_float (comment_score c) (float_mul f upvote_ratio_threshold)))
      else Inr False)"

section \<open>Values and exceptions\<close>

text \<open>
  The research record holds plain Python dictionaries and lists, and the data agent's
  methods are called with positional arguments, so the values that flow through them
  are modelled dynamically.
\<close>

datatype pyval =
  PNone
  | PBool bool
  | PInt int
  | PFloat real
  | PStr string
  | PList "pyval list"
  | PDict "(string \<times> pyval) list"

text \<open>Lists and dictionaries cannot be dictionary keys.\<close>

fun hashable :: "pyval \<Rightarrow> bool" where
  "hashable (PList xs) = False"
| "hashable (PDict kvs) = False"
| "hashable v = True"

text \<open>\<^verbatim>\<open>str(e)\<close> in the logged messages: the class of the exception stands for its text.\<close>

fun error_text :: "error \<Rightarrow> string" where
  "error_text TypeError = ''TypeError''"
| "error_text KeyError = ''KeyError''"
| "error_text IndexError = ''IndexError''"
| "error_text AttributeError = ''AttributeError''"
| "error_text OverflowError = ''OverflowError''"
| "error_text PlatformError = ''PlatformError''"
| "error_text LLMError = ''LLMError''"

section \<open>The research record and the data agent\<close>

record ResearchData =
  research_id :: pyval
  original_prompt :: pyval
  subreddit :: pyval
  style_template :: pyval
  post :: pyval
  interactions :: pyval

text \<open>\<^verbatim>\<open>dataclasses.asdict\<close>: the fields in declaration order.\<close>

definition asdict :: "ResearchData \<Rightarrow> pyval" where
  "asdict r = PDict
     [(''research_id'', research_id r),
      (''original_prompt'', original_prompt r),
      (''subreddit'', subreddit r),
      (''style_template'', style_template r),
      (''post'', post r),
      (''interactions'', interactions r)]"

text \<open>\<^verbatim>\<open>DataCollectionAgent.data\<close>, a dictionary from research ids to records.\<close>

type_synonym data_agent = "pyval \<rightharpoonup> ResearchData"

text \<open>
  Each method receives the positional arguments of the call (after \<^verbatim>\<open>self\<close>). Binding
  them to the parameters fails with \<^verbatim>\<open>TypeError\<close> when their number is not the number
  of parameters.
\<close>

definition initialize_research :: "pyval list \<Rightarrow> data_agent \<Rightarrow> error + data_agent" where
  "initialize_research args self =
     (case args of
        [rid, prompt, sub, style] \<Rightarrow>
          if hashable rid then
            Inr (self(rid \<mapsto>
              \<lparr>research_id = rid, original_prompt = prompt, subreddit = sub,
               style_template = style, post = PDict [],
               interactions = PDict
                 [(''replies'', PList []),
                  (''metrics'', PDict
                     [(''total_engagement'', PInt 0),
                      (''sentiment_overview'', PDict []),
                      (''key_insights'', PList [])])]\<rparr>))
          else Inl TypeError
      | _ \<Rightarrow> Inl TypeError)"

definition update_post :: "pyval list \<Rightarrow> data_agent \<Rightarrow> error + data_agent" where
  "update_post args self =
     (case args of
        [rid, post_data] \<Rightarrow>
          if hashable rid then
            (case self rid of
               None \<Rightarrow> Inl KeyError
             | Some r \<Rightarrow> Inr (self(rid \<mapsto> r\<lparr>post := post_data\<rparr>)))
          else Inl TypeError
      | _ \<Rightarrow> Inl TypeError)"

definition add_reply :: "pyval list \<Rightarrow> data_agent \<Rightarrow> error + data_agent" where
  "add_reply args self =
     (case args of
        [rid, reply_data] \<Rightarrow>
          if hashable rid then
            (case self rid of
               None \<Rightarrow> Inl KeyError
             | Some r \<Rightarrow>
                 (case interactions r of
                    PDict kvs \<Rightarrow>
                      (case map_of kvs ''replies'' of
                         None \<Rightarrow> Inl KeyError
                       | Some (PList xs) \<Rightarrow>
                           Inr (self(rid \<mapsto> r\<lparr>interactions :=
                             PDict (AList.update ''replies'' (PList (xs @ [reply_data])) kvs)\<rparr>))
                       | Some _ \<Rightarrow> Inl AttributeError)
                  | _ \<Rightarrow> Inl TypeError))
          else Inl TypeError
      | _ \<Rightarrow> Inl TypeError)"

text \<open>
  \<^verbatim>\<open>save_research\<close> opens the file for writing before it looks the record up, so a
  failing lookup leaves an empty file behind; the file system is returned in both
  cases. The JSON text is produced by \<^verbatim>\<open>json.dumps\<close>, a library function passed
  in as \<open>dumps\<close>.
\<close>

definition save_research ::
  "(pyval \<Rightarrow> string) \<Rightarrow> pyval list \<Rightarrow> data_agent \<Rightarrow> (string \<rightharpoonup> string)
     \<Rightarrow> error option \<times> (string \<rightharpoonup> string)" where
  "save_research dumps args self fs =
     (case args of
        [rid, PStr filepath] \<Rightarrow>
          (let fs1 = fs(filepath \<mapsto> [])
           in if hashable rid then
                (case self rid of
                   None \<Rightarrow> (Some KeyError, fs1)
                 | Some r \<Rightarrow> (None, fs1(filepath \<mapsto> dumps (asdict r))))
              else (Some TypeError, fs1))
      | _ \<Rightarrow> (Some TypeError, fs))"

section \<open>The outside world\<close>

text \<open>
  The platform, the language-model provider, the clock and the library functions are
  outside the program. Their answers are given by an environment; what the program
  has done to them so far is part of the state.
\<close>

record hot_post =
  hot_title :: string
  hot_selftext :: "string option"
  hot_score :: int

text \<open>
  What the platform shows at one \<^verbatim>\<open>post.refresh()\<close>: whether the refresh or the
  expansion of collapsed threads raises, whether the refreshed post carries an
  attribute \<^verbatim>\<open>removed\<close>, the post's score and its comments.
\<close>

record poll =
  refresh_error :: "error option"
  has_removed :: bool
  replace_more_error :: "error option"
  post_score :: int
  comments :: "comment list"

text \<open>
  The environment: \<open>latency k\<close> is the number of seconds the k-th outside call takes;
  \<open>subreddit_accessible\<close> says for which names \<^verbatim>\<open>reddit.subreddit(name).title\<close> can be
  read; \<open>hot_listing\<close> is what iterating \<^verbatim>\<open>subreddit.hot(limit=10)\<close> yields or raises;
  \<open>llm k\<close> is the text or the exception of the k-th provider call; \<open>submit_result\<close>
  gives the id of the new post or the exception of \<^verbatim>\<open>subreddit.submit\<close>; \<open>poll_at k\<close> is
  what the k-th refresh shows; \<open>reply_result k\<close> is the id of the new comment or the
  exception of the k-th \<^verbatim>\<open>comment.reply\<close>. The last three are the library functions
  \<^verbatim>\<open>TextBlob(text).sentiment\<close>, \<^verbatim>\<open>json.dumps(v, indent=2)\<close> and
  \<^verbatim>\<open>datetime.isoformat\<close> of a time stamp.
\<close>

record env =
  latency :: "nat \<Rightarrow> nat"
  subreddit_accessible :: "string \<Rightarrow> bool"
  hot_listing :: "error + hot_post list"
  llm :: "nat \<Rightarrow> error + string"
  submit_result :: "string \<Rightarrow> string \<Rightarrow> error + string"
  poll_at :: "nat \<Rightarrow> poll"
  reply_result :: "nat \<Rightarrow> error + string"
  textblob :: "string \<Rightarrow> real \<times> real"
  json_dumps :: "pyval \<Rightarrow> string"
  isoformat :: "int \<Rightarrow> string"

datatype platform_call =
  GetSubreddit string
  | Hot string
  | Submit string string string
  | Refresh string
  | ReplaceMore string
  | Reply string string

text \<open>
  The state: the clock read by \<^verbatim>\<open>time.time()\<close>, \<^verbatim>\<open>RedditAPI.last_api_call\<close>, the
  research records of the data agent, the files on disk, the lines printed, the
  platform calls issued so far with their times, the prompts sent to the provider, and
  counters of the outside calls made.
\<close>

record state =
  clock :: int
  ext_calls :: nat
  last_api_call :: int
  llm_calls :: nat
  llm_prompts :: "string list"
  polls :: nat
  reply_attempts :: nat
  platform_log :: "(int \<times> platform_call) list"
  stdout :: "string list"
  files :: "string \<rightharpoonup> string"
  data :: data_agent

text \<open>The state right after \<^verbatim>\<open>RedditResearchAgent()\<close> is constructed at time \<open>now\<close>.\<close>

definition init_state :: "int \<Rightarrow> state" where
  "init_state now =
     \<lparr>clock = now, ext_calls = 0, last_api_call = 0, llm_calls = 0, llm_prompts = [],
      polls = 0, reply_attempts = 0, platform_log = [], stdout = [],
      files = Map.empty, data = Map.empty\<rparr>"

definition print_line :: "string \<Rightarrow> state \<Rightarrow> state" where
  "print_line msg s = s\<lparr>stdout := stdout s @ [msg]\<rparr>"

definition sleep :: "int \<Rightarrow> state \<Rightarrow> state" where
  "sleep d s = s\<lparr>clock := clock s + d\<rparr>"

text \<open>A call that leaves the process takes the time the environment gives it.\<close>

definition external :: "env \<Rightarrow> state \<Rightarrow> state" where
  "external e s =
     s\<lparr>clock := clock s + int (latency e (ext_calls s)), ext_calls := Suc (ext_calls s)\<rparr>"

text \<open>A call to the platform is logged with the time at which it is issued.\<close>

definition platform :: "env \<Rightarrow> platform_call \<Rightarrow> state \<Rightarrow> state" where
  "platform e c s = external e (s\<lparr>platform_log := platform_log s @ [(clock s, c)]\<rparr>)"

section \<open>RedditAPI\<close>

definition respect_rate_limit :: "state \<Rightarrow> state" where
  "respect_rate_limit s =
     (let current_time = clock s;
          time_since_last_call = current_time - last_api_call s;
          s1 = (if time_since_last_call < rate_limit_delay
                then sleep (rate_limit_delay - time_since_last_call) s else s)
      in s1\<lparr>last_api_call := clock s1\<rparr>)"

text \<open>The handle of a resolved subreddit is its name.\<close>

definition get_subreddit :: "env \<Rightarrow> string \<Rightarrow> state \<Rightarrow> string option \<times> state" where
  "get_subreddit e subreddit_name s =
     (let s1 = platform e (GetSubreddit subreddit_name) (respect_rate_limit s)
      in if subreddit_accessible e subreddit_name then (Some subreddit_name, s1)
         else (None, print_line (''Error accessing subreddit: '' @ error_text PlatformError) s1))"

section \<open>The language-model agents\<close>

datatype variant = OpenAI | Gemini

text \<open>
  One call of the provider: \<^verbatim>\<open>chain.run(...)\<close> in \<^verbatim>\<open>redditresearchagent.py\<close>,
  \<^verbatim>\<open>model.generate_content(prompt).text\<close> in \<^verbatim>\<open>redditresearchagent_gemini.py\<close>.
  The prompt is recorded; the answer to the k-th call is the environment's.
\<close>

definition provider :: "env \<Rightarrow> string \<Rightarrow> state \<Rightarrow> (error + string) \<times> state" where
  "provider e prompt s =
     (llm e (llm_calls s),
      external e (s\<lparr>llm_calls := Suc (llm_calls s), llm_prompts := llm_prompts s @ [prompt]\<rparr>))"

text \<open>\<^verbatim>\<open>GeminiWrapper.generate_text\<close>: the call inside \<^verbatim>\<open>try\<close>, any exception caught.\<close>

definition generate_text :: "env \<Rightarrow> string \<Rightarrow> state \<Rightarrow> string \<times> state" where
  "generate_text e prompt s =
     (case provider e prompt s of
        (Inr text, s1) \<Rightarrow> (text, s1)
      | (Inl err, s1) \<Rightarrow>
          ([], print_line (''Error generating text with Gemini: '' @ error_text err) s1))"

text \<open>
  The prompt templates are triple-quoted strings: a line break, the lines at the
  indentation of the source (12 columns in the LangChain file, 8 in the Gemini file),
  and the indentation before the closing quotes.
\<close>

definition template :: "nat \<Rightarrow> string list \<Rightarrow> string" where
  "template n ls =
     nl # concat (map (\<lambda>l. replicate n CHR '' '' @ l @ [nl]) ls) @ replicate n CHR '' ''"

fun indent :: "variant \<Rightarrow> nat" where
  "indent OpenAI = 12"
| "indent Gemini = 8"

definition style_prompt :: "variant \<Rightarrow> string \<Rightarrow> string" where
  "style_prompt v posts = template (indent v)
     [''Analyze these recent posts and identify:'',
      ''1. Common writing styles'',
      ''2. Typical post structure'',
      ''3. Popular phrases and terminology'',
      ''4. Engagement patterns'',
      [],
      ''Posts:'',
      posts,
      [],
      ''Provide a structured template for creating posts in this subreddit.'']"

definition post_prompt :: "variant \<Rightarrow> string \<Rightarrow> string \<Rightarrow> string" where
  "post_prompt v style_guide research_prompt = template (indent v)
     [''Create a Reddit post following this style guide:'',
      style_guide,
      [],
      ''Research Topic:'',
      research_prompt,
      [],
      ''Generate a post that will encourage meaningful discussion and responses.'']"

definition reply_prompt :: "variant \<Rightarrow> string \<Rightarrow> string" where
  "reply_prompt v context = template (indent v)
     [''Based on this conversation context:'',
      context,
      [],
      ''Generate a thoughtful and engaging reply that adds value to the discussion.'']"

text \<open>
  The LangChain file hands the prompt to the chain and returns what it returns, with
  nothing around the call; the Gemini file goes through \<^verbatim>\<open>generate_text\<close>.
\<close>

definition ask :: "variant \<Rightarrow> env \<Rightarrow> string \<Rightarrow> state \<Rightarrow> (error + string) \<times> state" where
  "ask v e prompt s =
     (case v of
        OpenAI \<Rightarrow> provider e prompt s
      | Gemini \<Rightarrow> (case generate_text e prompt s of (text, s1) \<Rightarrow> (Inr text, s1)))"

definition post_entry :: "hot_post \<Rightarrow> pyval" where
  "post_entry p = PDict
     [(''title'', PStr (hot_title p)),
      (''content'', PStr (case hot_selftext p of Some t \<Rightarrow> t | None \<Rightarrow> [])),
      (''score'', PInt (hot_score p))]"

text \<open>
  \<^verbatim>\<open>analyze_subreddit\<close>: the listing \<^verbatim>\<open>subreddit.hot(limit=10)\<close> is a platform call
  that may raise; nothing catches it.
\<close>

definition analyze_subreddit ::
  "variant \<Rightarrow> env \<Rightarrow> string \<Rightarrow> state \<Rightarrow> (error + string) \<times> state" where
  "analyze_subreddit v e sub s =
     (let s1 = platform e (Hot sub) s
      in case hot_listing e of
           Inl err \<Rightarrow> (Inl err, s1)
         | Inr ps \<Rightarrow>
             ask v e (style_prompt v (json_dumps e (PList (map post_entry (take 10 ps))))) s1)"

definition generate_post ::
  "variant \<Rightarrow> env \<Rightarrow> string \<Rightarrow> string \<Rightarrow> state \<Rightarrow> (error + string) \<times> state" where
  "generate_post v e style_guide research_prompt s =
     ask v e (post_prompt v style_guide research_prompt) s"

definition generate_reply ::
  "variant \<Rightarrow> env \<Rightarrow> string \<Rightarrow> state \<Rightarrow> (error + string) \<times> state" where
  "generate_reply v e context s = ask v e (reply_prompt v context) s"

text \<open>\<^verbatim>\<open>analyze_sentiment\<close>: the two numbers TextBlob gives, as a dictionary.\<close>

definition analyze_sentiment :: "env \<Rightarrow> string \<Rightarrow> pyval" where
  "analyze_sentiment e text =
     PDict [(''polarity'', PFloat (fst (textblob e text))),
            (''subjectivity'', PFloat (snd (textblob e text)))]"

section \<open>The orchestrator\<close>

text \<open>\<^verbatim>\<open>int(time.time())\<close> inside an f-string: the decimal digits of an integer.\<close>

function show_nat :: "nat \<Rightarrow> string" where
  "show_nat n =
     (if n < 10 then [''0123456789'' ! n]
      else show_nat (n div 10) @ [''0123456789'' ! (n mod 10)])"
  by pat_completeness auto
termination
  by (relation "measure id") auto

definition show_int :: "int \<Rightarrow> string" where
  "show_int i = (if i < 0 then CHR ''-'' # show_nat (nat (- i)) else show_nat (nat i))"

text \<open>The two dictionaries handed to \<^verbatim>\<open>add_reply\<close> in the monitoring loop.\<close>

definition human_snapshot :: "env \<Rightarrow> comment \<Rightarrow> pyval" where
  "human_snapshot e c = PDict
     [(''id'', PStr (comment_id c)),
      (''content'', PStr (comment_body c)),
      (''upvotes'', PInt (comment_score c)),
      (''sentiment'', analyze_sentiment e (comment_body c)),
      (''timestamp'', PStr (isoformat e (comment_created_utc c))),
      (''is_bot_generated'', PBool False)]"

definition bot_snapshot :: "env \<Rightarrow> string \<Rightarrow> string \<Rightarrow> int \<Rightarrow> pyval" where
  "bot_snapshot e reply_id reply_content now = PDict
     [(''id'', PStr reply_id),
      (''content'', PStr reply_content),
      (''upvotes'', PInt 0),
      (''sentiment'', analyze_sentiment e reply_content),
      (''timestamp'', PStr (isoformat e now)),
      (''is_bot_generated'', PBool True)]"

text \<open>
  The body of \<^verbatim>\<open>for comment in post.comments.list()\<close>. The first component of the
  result is the exception that leaves the body, if any: one raised by the condition
  or by what follows it; the inner \<^verbatim>\<open>try\<close> around
  \<^verbatim>\<open>comment.reply\<close> catches what is raised from there on. The source passes one
  argument to \<^verbatim>\<open>add_reply\<close>, the dictionary.
\<close>

definition process_comment ::
  "variant \<Rightarrow> env \<Rightarrow> string \<Rightarrow> int \<Rightarrow> comment \<Rightarrow> string fset \<Rightarrow> state
     \<Rightarrow> error option \<times> string fset \<times> state" where
  "process_comment v e post_content score c generated_replies s =
     (case (if comment_id c |\<notin>| generated_replies then should_reply c score
            else Inr False) of
        Inl err \<Rightarrow> (Some err, generated_replies, s)
      | Inr False \<Rightarrow> (None, generated_replies, s)
      | Inr True \<Rightarrow>
        (case add_reply [human_snapshot e c] (data s) of
           Inl err \<Rightarrow> (Some err, generated_replies, s)
         | Inr d \<Rightarrow>
             (let s1 = s\<lparr>data := d\<rparr>
              in if fcard generated_replies < max_replies_per_thread then
                   (case generate_reply v e
                           (''Original Post: '' @ post_content @ [nl, nl]
                              @ ''Comment: '' @ comment_body c) s1 of
                      (Inl err, s2) \<Rightarrow> (Some err, generated_replies, s2)
                    | (Inr reply_content, s2) \<Rightarrow>
                        (let s3 = platform e (Reply (comment_id c) reply_content)
                                    (s2\<lparr>reply_attempts := Suc (reply_attempts s2)\<rparr>)
                         in case reply_result e (reply_attempts s2) of
                              Inl err \<Rightarrow>
                                (None, generated_replies,
                                 print_line (''Error posting reply: '' @ error_text err) s3)
                            | Inr reply_id \<Rightarrow>
                                (case add_reply
                                        [bot_snapshot e reply_id reply_content (clock s3)]
                                        (data s3) of
                                   Inl err \<Rightarrow>
                                     (None, finsert reply_id generated_replies,
                                      print_line (''Error posting reply: '' @ error_text err) s3)
                                 | Inr d1 \<Rightarrow>
                                     (None, finsert reply_id generated_replies,
                                      s3\<lparr>data := d1\<rparr>))))
                 else (None, generated_replies, s1))))"

fun process_comments ::
  "variant \<Rightarrow> env \<Rightarrow> string \<Rightarrow> int \<Rightarrow> comment list \<Rightarrow> string fset \<Rightarrow> state
     \<Rightarrow> error option \<times> string fset \<times> state" where
  "process_comments v e post_content score [] g s = (None, g, s)"
| "process_comments v e post_content score (c # cs) g s =
     (case process_comment v e post_content score c g s of
        (Some err, g1, s1) \<Rightarrow> (Some err, g1, s1)
      | (None, g1, s1) \<Rightarrow> process_comments v e post_content score cs g1 s1)"

text \<open>
  One pass of the \<^verbatim>\<open>while\<close> loop, up to the point where control leaves the
  \<^verbatim>\<open>try\<close> block: by falling off its end after the sleep, by \<^verbatim>\<open>break\<close>, or by an
  exception. The source passes one argument to \<^verbatim>\<open>update_post\<close>, the dictionary.
\<close>

datatype flow = Continue | Break | Raised error

definition monitor_pass ::
  "variant \<Rightarrow> env \<Rightarrow> string \<Rightarrow> string \<Rightarrow> string fset \<Rightarrow> state
     \<Rightarrow> flow \<times> string fset \<times> state" where
  "monitor_pass v e post_id post_content g s =
     (let p = poll_at e (polls s);
          s1 = platform e (Refresh post_id) (s\<lparr>polls := Suc (polls s)\<rparr>)
      in case refresh_error p of
           Some err \<Rightarrow> (Raised err, g, s1)
         | None \<Rightarrow>
             if has_removed p then
               (let s2 = print_line ''Post was removed by moderators'' s1
                in case update_post
                          [PDict [(''status'', PStr ''removed''),
                                  (''timestamp'', PStr (isoformat e (clock s2)))]]
                          (data s2) of
                     Inl err \<Rightarrow> (Raised err, g, s2)
                   | Inr d \<Rightarrow> (Break, g, s2\<lparr>data := d\<rparr>))
             else
               (let s2 = platform e (ReplaceMore post_id) s1
                in case replace_more_error p of
                     Some err \<Rightarrow> (Raised err, g, s2)
                   | None \<Rightarrow>
                       (case process_comments v e post_content (post_score p) (comments p) g s2 of
                          (Some err, g1, s3) \<Rightarrow> (Raised err, g1, s3)
                        | (None, g1, s3) \<Rightarrow> (Continue, g1, sleep check_interval s3))))"

text \<open>
  The \<^verbatim>\<open>while\<close> loop. An exception is caught by the handler of the pass, which prints
  and sleeps; only \<^verbatim>\<open>break\<close> or the elapsed duration end the loop.
\<close>

function monitor ::
  "variant \<Rightarrow> env \<Rightarrow> string \<Rightarrow> string \<Rightarrow> int \<Rightarrow> string fset \<Rightarrow> state
     \<Rightarrow> string fset \<times> state" where
  "monitor v e post_id post_content start_time g s =
     (if clock s - start_time < monitoring_duration then
        (case monitor_pass v e post_id post_content g s of
           (Break, g1, s1) \<Rightarrow> (g1, s1)
         | (Continue, g1, s1) \<Rightarrow> monitor v e post_id post_content start_time g1 s1
         | (Raised err, g1, s1) \<Rightarrow>
             monitor v e post_id post_content start_time g1
               (sleep check_interval
                  (print_line (''Error monitoring responses: '' @ error_text err) s1)))
      else (g, s))"
  by pat_completeness auto

text \<open>
  Both dictionaries reach the data agent as the only argument of a method that has two
  parameters, so neither call gets past the binding of its arguments. The loop
  terminates because every pass that does not leave it ends in a sleep.
\<close>

lemma add_reply_one_argument: "add_reply [x] d = Inl TypeError"
  by (simp add: add_reply_def)

lemma update_post_one_argument: "update_post [x] d = Inl TypeError"
  by (simp add: update_post_def)

lemma process_comment_eq:
  "process_comment v e pc sc c g s =
     (if comment_id c |\<notin>| g then
        (case should_reply c sc of
           Inl err \<Rightarrow> Some err
         | Inr b \<Rightarrow> if b then Some TypeError else None)
      else None, g, s)"
  by (simp add: process_comment_def add_reply_one_argument split: sum.splits bool.splits)

lemma process_comments_frame:
  "process_comments v e pc sc cs g s = (r, g1, s1) \<Longrightarrow> g1 = g \<and> s1 = s"
  by (induction cs arbitrary: r)
    (auto simp: process_comment_eq split: option.splits sum.splits if_splits)

lemma process_comments_variant:
  "process_comments v e pc sc cs g s = process_comments w e pc sc cs g s"
  by (induction cs) (auto simp: process_comment_eq split: sum.splits)

lemma clock_platform: "clock (platform e c s) = clock s + int (latency e (ext_calls s))"
  by (simp add: platform_def external_def)

lemma monitor_pass_clock:
  assumes "monitor_pass v e pid pc g s = (f, g1, s1)"
  shows "clock s \<le> clock s1"
    and "f = Continue \<Longrightarrow> clock s + check_interval \<le> clock s1"
  using assms
  by (auto simp: monitor_pass_def Let_def update_post_one_argument
        clock_platform sleep_def print_line_def check_interval_def
      split: option.splits if_splits prod.splits dest!: process_comments_frame)

termination monitor
proof (relation
    "measure (\<lambda>(v, e, pid, pc, start, g, s). nat (monitoring_duration - (clock s - start)))")
  show "wf (measure (\<lambda>(v, e, pid, pc, start, g, s).
              nat (monitoring_duration - (clock s - start))))"
    by simp
next
  fix v e pid pc start g s x g1 s1 y
  assume c: "clock s - start < monitoring_duration"
    and x: "(x, y) = monitor_pass v e pid pc g s" "x = Continue" "(g1, s1) = y"
  then have "monitor_pass v e pid pc g s = (Continue, g1, s1)" by simp
  from monitor_pass_clock(2) [OF this] have "clock s + check_interval \<le> clock s1" by simp
  with c show "((v, e, pid, pc, start, g1, s1), (v, e, pid, pc, start, g, s))
      \<in> measure (\<lambda>(v, e, pid, pc, start, g, s).
                   nat (monitoring_duration - (clock s - start)))"
    by (simp add: check_interval_def)
next
  fix v e pid pc start g s x g1 s1 y err
  assume c: "clock s - start < monitoring_duration"
    and x: "(x, y) = monitor_pass v e pid pc g s" "x = Raised err" "(g1, s1) = y"
  then have "monitor_pass v e pid pc g s = (Raised err, g1, s1)" by simp
  from monitor_pass_clock(1) [OF this] have "clock s \<le> clock s1" by simp
  with c show "((v, e, pid, pc, start, g1,
        sleep check_interval
          (print_line (''Error monitoring responses: '' @ error_text err) s1)),
       (v, e, pid, pc, start, g, s))
      \<in> measure (\<lambda>(v, e, pid, pc, start, g, s).
                   nat (monitoring_duration - (clock s - start)))"
    by (simp add: check_interval_def sleep_def print_line_def)
qed

declare monitor.simps [simp del]

text \<open>
  The \<^verbatim>\<open>try\<close> block that makes the post: the submission, then the snapshot handed
  to \<^verbatim>\<open>update_post\<close>. Whatever is raised inside reaches the handler in
  \<^verbatim>\<open>run_research\<close>.
\<close>

definition make_post ::
  "env \<Rightarrow> string \<Rightarrow> string \<Rightarrow> state \<Rightarrow> (error + string) \<times> state" where
  "make_post e sub post_content s =
     (case submit_args post_content of
        Inl err \<Rightarrow> (Inl err, s)
      | Inr (title, selftext) \<Rightarrow>
          (let s1 = platform e (Submit sub title selftext) s
           in case submit_result e title selftext of
                Inl err \<Rightarrow> (Inl err, s1)
              | Inr post_id \<Rightarrow>
                  (case update_post
                          [PDict [(''id'', PStr post_id),
                                  (''content'', PStr post_content),
                                  (''timestamp'', PStr (isoformat e (clock s1))),
                                  (''status'', PStr ''active'')]]
                          (data s1) of
                     Inl err \<Rightarrow> (Inl err, s1)
                   | Inr d \<Rightarrow> (Inr post_id, s1\<lparr>data := d\<rparr>))))"

text \<open>
  From \<^verbatim>\<open>start_time = time.time()\<close> to \<^verbatim>\<open>return research_id\<close>: the loop, then the
  record written to \<^verbatim>\<open>research_data_<id>.json\<close>.
\<close>

definition monitor_and_save ::
  "variant \<Rightarrow> env \<Rightarrow> string \<Rightarrow> string \<Rightarrow> string \<Rightarrow> state
     \<Rightarrow> (error + string option) \<times> state" where
  "monitor_and_save v e rid post_id post_content s =
     (case monitor v e post_id post_content (clock s) {||} s of
        (g, s1) \<Rightarrow>
          (case save_research (json_dumps e)
                  [PStr rid, PStr (''research_data_'' @ rid @ ''.json'')]
                  (data s1) (files s1) of
             (Some err, fs) \<Rightarrow> (Inl err, s1\<lparr>files := fs\<rparr>)
           | (None, fs) \<Rightarrow> (Inr (Some rid), s1\<lparr>files := fs\<rparr>)))"

text \<open>
  \<^verbatim>\<open>run_research\<close>. The result is the exception that leaves the function, or the
  value it returns: \<open>None\<close> or the research id.
\<close>

definition run_research ::
  "variant \<Rightarrow> env \<Rightarrow> string \<Rightarrow> string \<Rightarrow> string option \<Rightarrow> state
     \<Rightarrow> (error + string option) \<times> state" where
  "run_research v e research_prompt subreddit_name research_id_arg s =
     (let rid = (case research_id_arg of
                   None \<Rightarrow> ''research_'' @ show_int (clock s)
                 | Some r \<Rightarrow> r)
      in case get_subreddit e subreddit_name s of
           (None, s1) \<Rightarrow>
             (Inr None, print_line (''Could not access subreddit: '' @ subreddit_name) s1)
         | (Some sub, s1) \<Rightarrow>
             (case analyze_subreddit v e sub s1 of
                (Inl err, s2) \<Rightarrow> (Inl err, s2)
              | (Inr style, s2) \<Rightarrow>
                  (case generate_post v e style research_prompt s2 of
                     (Inl err, s3) \<Rightarrow> (Inl err, s3)
                   | (Inr post_content, s3) \<Rightarrow>
                       (case initialize_research
                               [PStr rid, PStr research_prompt, PStr subreddit_name,
                                PStr style]
                               (data s3) of
                          Inl err \<Rightarrow> (Inl err, s3)
                        | Inr d \<Rightarrow>
                            (case make_post e sub post_content (s3\<lparr>data := d\<rparr>) of
                               (Inl err, s4) \<Rightarrow>
                                 (Inr None,
                                  print_line
                                    (''Error posting to Reddit: '' @ error_text err) s4)
                             | (Inr post_id, s4) \<Rightarrow>
                                 monitor_and_save v e rid post_id post_content s4)))))"

section \<open>What a run leaves behind\<close>

text \<open>The posts submitted and the replies posted, read off the log of platform calls.\<close>

fun submission_of :: "platform_call \<Rightarrow> (string \<times> string \<times> string) list" where
  "submission_of (Submit sub title selftext) = [(sub, title, selftext)]"
| "submission_of c = []"

definition submitted :: "state \<Rightarrow> (string \<times> string \<times> string) list" where
  "submitted s = concat (map (\<lambda>tc. submission_of (snd tc)) (platform_log s))"

fun reply_of :: "platform_call \<Rightarrow> (string \<times> string) list" where
  "reply_of (Reply cid text) = [(cid, text)]"
| "reply_of c = []"

definition replied :: "state \<Rightarrow> (string \<times> string) list" where
  "replied s = concat (map (\<lambda>tc. reply_of (snd tc)) (platform_log s))"

text \<open>A state with the record of the prompts sent to the provider left out.\<close>

definition without_prompts :: "state \<Rightarrow> state" where
  "without_prompts s = s\<lparr>llm_prompts := []\<rparr>"

text \<open>The bot-authored snapshots of a research record.\<close>

definition is_bot_generated :: "pyval \<Rightarrow> bool" where
  "is_bot_generated x =
     (case x of
        PDict kvs \<Rightarrow> map_of kvs ''is_bot_generated'' = Some (PBool True)
      | _ \<Rightarrow> False)"

definition bot_snapshots :: "ResearchData \<Rightarrow> pyval list" where
  "bot_snapshots r =
     (case interactions r of
        PDict kvs \<Rightarrow>
          (case map_of kvs ''replies'' of
             Some (PList xs) \<Rightarrow> filter is_bot_generated xs
           | _ \<Rightarrow> [])
      | _ \<Rightarrow> [])"

text \<open>The smallest gap between two consecutive platform calls of a log.\<close>

fun gaps :: "(int \<times> platform_call) list \<Rightarrow> int list" where
  "gaps (a # b # rest) = (fst b - fst a) # gaps (b # rest)"
| "gaps rest = []"

section \<open>Concrete environments\<close>

definition quiet_poll :: poll where
  "quiet_poll =
     \<lparr>refresh_error = None, has_removed = False, replace_more_error = None,
      post_score = 100, comments = []\<rparr>"

definition worthy_comment :: comment where
  "worthy_comment =
     \<lparr>comment_id = ''c1'', comment_body = ''I want a better battery'', comment_score = 6,
      comment_created_utc = 1200\<rparr>"

definition env_ok :: env where
  "env_ok =
     \<lparr>latency = (\<lambda>k. 1),
      subreddit_accessible = (\<lambda>name. name = ''smartphones''),
      hot_listing = Inr [\<lparr>hot_title = ''Best phone'', hot_selftext = Some ''so far'',
                          hot_score = 10\<rparr>],
      llm = (\<lambda>k. if k = 0 then Inr ''style guide''
                  else Inr (''Title Line'' @ [nl] @ ''Body line'')),
      submit_result = (\<lambda>title selftext. Inr ''p1''),
      poll_at = (\<lambda>k. quiet_poll),
      reply_result = (\<lambda>k. Inr ''r1''),
      textblob = (\<lambda>text. (0, 0)),
      json_dumps = (\<lambda>v. ''{}''),
      isoformat = show_int\<rparr>"

definition env_llm_down :: env where
  "env_llm_down = env_ok\<lparr>llm := (\<lambda>k. Inl LLMError)\<rparr>"


definition env_worthy :: env where
  "env_worthy = env_ok\<lparr>poll_at := (\<lambda>k. quiet_poll\<lparr>comments := [worthy_comment]\<rparr>)\<rparr>"

text \<open>
  A state in which the loop could be entered: the record initialised and holding the
  snapshot of an active post.
\<close>

definition active_post :: pyval where
  "active_post = PDict
     [(''id'', PStr ''p1''), (''content'', PStr ''Title''),
      (''timestamp'', PStr ''1000''), (''status'', PStr ''active'')]"

definition loop_entry :: state where
  "loop_entry = (init_state 1000)
     \<lparr>data := [PStr ''r1'' \<mapsto>
        \<lparr>research_id = PStr ''r1'', original_prompt = PStr ''topic'',
         subreddit = PStr ''smartphones'', style_template = PStr ''style guide'',
         post = active_post,
         interactions = PDict [(''replies'', PList [])]\<rparr>]\<rparr>"

section \<open>Properties of the rounding and of reply-worthiness\<close>

lemma bit_length_nonneg: "0 \<le> bit_length n"
  by (induction n rule: bit_length.induct) (simp add: bit_length.simps)

lemma bit_length_bounds:
  "0 < n \<Longrightarrow> 2 ^ nat (bit_length n - 1) \<le> n \<and> n < 2 ^ nat (bit_length n)"
proof (induction n rule: bit_length.induct)
  case (1 n)
  show ?case
  proof (cases "n div 2 \<le> 0")
    case True
    with 1 have n: "n = 1" by linarith
    have "bit_length 1 = 1"
      by (simp add: bit_length.simps [of 1] bit_length.simps [of 0])
    with n show ?thesis by simp
  next
    case False
    with 1 have ih: "2 ^ nat (bit_length (n div 2) - 1) \<le> n div 2"
        "n div 2 < 2 ^ nat (bit_length (n div 2))"
      by simp_all
    have pos: "0 < bit_length (n div 2)"
      using False bit_length_nonneg [of "n div 2 div 2"]
      by (simp add: bit_length.simps [of "n div 2"])
    have b: "bit_length n = 1 + bit_length (n div 2)"
      using 1(2) by (simp add: bit_length.simps [of n])
    have p: "(2::int) ^ nat (bit_length (n div 2)) = 2 * 2 ^ nat (bit_length (n div 2) - 1)"
      using pos by (simp add: power_Suc [symmetric] Suc_nat_eq_nat_zadd1 del: power_Suc)
    have "nat (bit_length n) = Suc (nat (bit_length (n div 2)))"
      using pos b by simp
    with ih p show ?thesis unfolding b by (simp, linarith)
  qed
qed

lemma bit_length_le:
  assumes "n < 2 ^ k"
  shows "bit_length n \<le> int k"
proof (cases "0 < n")
  case False
  then show ?thesis by (simp add: bit_length.simps [of n])
next
  case True
  with bit_length_bounds [OF True] assms
  have "(2::int) ^ nat (bit_length n - 1) < 2 ^ k" by linarith
  then have "nat (bit_length n - 1) < k" by (simp add: power_strict_increasing_iff)
  then show ?thesis by linarith
qed

lemma round_to_53_small: "\<bar>n\<bar> < 2 ^ 53 \<Longrightarrow> round_to_53 n = n"
  using bit_length_le [of "\<bar>n\<bar>" 53] by (simp add: round_to_53_def Let_def)

lemma round_to_53_negative: "n < 0 \<Longrightarrow> round_to_53 n \<le> 0"
proof -
  assume n: "n < 0"
  have "0 \<le> (\<bar>n\<bar> div 2 ^ k + 1) * 2 ^ k" "0 \<le> (\<bar>n\<bar> div 2 ^ k) * (2::int) ^ k" for k
    by (simp_all add: pos_imp_zdiv_nonneg_iff)
  with n show ?thesis
    by (simp add: round_to_53_def Let_def mult_le_0_iff)
qed

lemma round_to_53_bounds:
  assumes n: "0 \<le> n" and k: "53 < bit_length n"
  shows "(n div 2 ^ nat (bit_length n - 53)) * 2 ^ nat (bit_length n - 53) \<le> round_to_53 n"
    and "round_to_53 n * 2 ^ 53 \<le> n * (2 ^ 53 + 1)"
proof -
  define sh where "sh = nat (bit_length n - 53)"
  define q where "q = n div 2 ^ sh"
  define r where "r = n mod 2 ^ sh"
  define half :: int where "half = 2 ^ (sh - 1)"
  define m where "m = (if half < r \<or> (r = half \<and> odd q) then q + 1 else q)"
  have pos: "0 < n" using k n by (cases "n = 0") (simp_all add: bit_length.simps [of 0])
  have sh: "0 < sh" using k by (simp add: sh_def)
  then have two: "(2::int) ^ sh = 2 * half"
    by (cases sh) (simp_all add: half_def)
  have nq: "n = q * 2 ^ sh + r" by (simp only: q_def r_def div_mult_mod_eq)
  have q0: "0 \<le> q" using n by (simp add: q_def pos_imp_zdiv_nonneg_iff)
  have R: "round_to_53 n = m * 2 ^ sh"
    using pos k n
    by (simp add: round_to_53_def Let_def m_def half_def r_def q_def sh_def)
  have r0: "0 \<le> r" by (simp add: r_def)
  have mq: "q \<le> m" by (simp add: m_def)
  then have "q * 2 ^ sh \<le> m * 2 ^ sh" by (simp add: mult_right_mono)
  then show "(n div 2 ^ nat (bit_length n - 53)) * 2 ^ nat (bit_length n - 53) \<le> round_to_53 n"
    by (simp add: R q_def sh_def)
  have up: "m * 2 ^ sh \<le> n + half"
  proof (cases "m = q")
    case True
    have "0 \<le> half" by (simp add: half_def)
    with nq r0 show ?thesis unfolding True by linarith
  next
    case False
    then have m1: "m = q + 1" and "half \<le> r"
      by (auto simp: m_def split: if_splits)
    then have "m * 2 ^ sh = q * 2 ^ sh + 2 * half" by (simp add: two algebra_simps)
    with nq \<open>half \<le> r\<close> show ?thesis by linarith
  qed
  have "nat (bit_length n - 1) = (sh - 1) + 53"
    using k by (simp add: sh_def)
  then have "(2::int) ^ nat (bit_length n - 1) = half * 2 ^ 53"
    by (simp only: power_add half_def)
  with bit_length_bounds [OF pos] have "half * 2 ^ 53 \<le> n" by simp
  with up show "round_to_53 n * 2 ^ 53 \<le> n * (2 ^ 53 + 1)"
    unfolding R by simp
qed

lemma should_reply_small:
  assumes p: "\<bar>p\<bar> \<le> 2 ^ 52"
  shows "should_reply c p = Inr (5 < comment_score c \<and> p < 20 * comment_score c)"
proof (cases "5 < comment_score c")
  case False
  then show ?thesis by (simp add: should_reply_def min_upvotes_def)
next
  case True
  define s where "s = comment_score c"
  define N where "N = p * 3602879701896397"
  have s: "5 < s" using True by (simp add: s_def)
  have conv: "float_of_int p = Inr (B64 p 0)"
  proof -
    have "\<bar>p\<bar> < 2 ^ 53" using p by simp
    then have "round_to_53 p = p" by (rule round_to_53_small)
    moreover have "\<bar>p\<bar> < 2 ^ 1024" using p by simp
    ultimately show ?thesis by (simp add: float_of_int_def Let_def)
  qed
  have sr: "should_reply c p = Inr (round_to_53 N < s * 2 ^ 56)"
    using True
    by (simp add: should_reply_def min_upvotes_def conv upvote_ratio_threshold_def N_def s_def)
  have "round_to_53 N < s * 2 ^ 56 \<longleftrightarrow> p < 20 * s"
  proof (cases "p < 0")
    case True
    then have "N < 0" by (simp add: N_def mult_less_0_iff)
    then have "round_to_53 N \<le> 0" by (rule round_to_53_negative)
    with s True show ?thesis by simp
  next
    case False
    then have p0: "0 \<le> p" by simp
    then have N0: "0 \<le> N" by (simp add: N_def)
    have "N \<le> 2 ^ 52 * 3602879701896397" using p p0 by (simp add: N_def)
    then have Nlt: "N < 2 ^ 104" by simp
    show ?thesis
    proof (cases "bit_length N \<le> 53")
      case True
      then have "round_to_53 N = N" using N0 by (simp add: round_to_53_def Let_def)
      then show ?thesis using p p0 s by (simp add: N_def; linarith)
    next
      case False
      then have k: "53 < bit_length N" by simp
      define sh where "sh = nat (bit_length N - 53)"
      note b = round_to_53_bounds [OF N0 k]
      have "bit_length N \<le> 104" using bit_length_le [OF Nlt] by simp
      then have sh: "sh \<le> 56" by (simp add: sh_def)
      show ?thesis
      proof
        assume lt: "round_to_53 N < s * 2 ^ 56"
        show "p < 20 * s"
        proof (rule ccontr)
          assume "\<not> p < 20 * s"
          then have sN: "s * 2 ^ 56 \<le> N" using s by (simp add: N_def)
          have pw: "(2::int) ^ 56 = 2 ^ (56 - sh) * 2 ^ sh"
            using sh by (simp add: power_add [symmetric])
          then have e1: "s * 2 ^ 56 = (s * 2 ^ (56 - sh)) * 2 ^ sh"
            by (simp only: mult.assoc)
          have "(s * 2 ^ 56) div 2 ^ sh \<le> N div 2 ^ sh"
            using sN by (rule zdiv_mono1) simp
          moreover have "(s * 2 ^ 56) div 2 ^ sh = s * 2 ^ (56 - sh)"
            unfolding e1 by simp
          ultimately have "s * 2 ^ (56 - sh) \<le> N div 2 ^ sh" by (simp only:)
          then have "(s * 2 ^ (56 - sh)) * 2 ^ sh \<le> (N div 2 ^ sh) * 2 ^ sh"
            by (rule mult_right_mono) simp
          also have "\<dots> \<le> round_to_53 N" using b(1) by (simp only: sh_def)
          finally have "s * 2 ^ 56 \<le> round_to_53 N" by (simp only: e1)
          with lt show False by simp
        qed
      next
        assume "p < 20 * s"
        with b(2) p p0 show "round_to_53 N < s * 2 ^ 56"
          by (simp add: N_def; linarith)
      qed
    qed
  qed
  with sr show ?thesis using True by (simp add: s_def)
qed

lemma round_to_53_minus: "round_to_53 (- n) = - round_to_53 n"
  by (simp add: round_to_53_def Let_def)

lemma round_to_53_large:
  assumes "2 ^ 1024 \<le> n"
  shows "2 ^ 1024 \<le> round_to_53 n"
proof -
  have pos: "0 < n" using assms by (smt (verit) zero_less_power)
  note bl = bit_length_bounds [OF pos]
  have "(2::int) ^ 1024 < 2 ^ nat (bit_length n)" using assms bl by linarith
  then have "1024 < nat (bit_length n)"
    by (rule power_less_imp_less_exp [rotated]) simp
  then have k: "1024 < bit_length n" by simp
  then have k53: "53 < bit_length n" by simp
  define sh where "sh = nat (bit_length n - 53)"
  have e: "nat (bit_length n - 1) = 52 + sh" using k by (simp add: sh_def)
  have "(2::int) ^ 52 * 2 ^ sh \<le> n" using bl e by (simp add: power_add)
  then have "(2 ^ 52 * 2 ^ sh) div 2 ^ sh \<le> n div (2::int) ^ sh" by (rule zdiv_mono1) simp
  then have "2 ^ 52 \<le> n div (2::int) ^ sh" by simp
  then have "2 ^ 52 * 2 ^ sh \<le> (n div (2::int) ^ sh) * 2 ^ sh" by (rule mult_right_mono) simp
  also have "\<dots> \<le> round_to_53 n"
    using round_to_53_bounds(1) [OF _ k53] pos by (simp add: sh_def)
  finally have "(2::int) ^ (52 + sh) \<le> round_to_53 n" by (simp add: power_add)
  moreover have "(2::int) ^ 1024 \<le> 2 ^ (52 + sh)"
    using k by (intro power_increasing) (simp_all add: sh_def)
  ultimately show ?thesis by linarith
qed

lemma float_of_int_overflow:
  assumes "2 ^ 1024 \<le> \<bar>p\<bar>"
  shows "float_of_int p = Inl OverflowError"
proof (cases "0 \<le> p")
  case True
  with assms round_to_53_large [of p] show ?thesis
    by (simp add: float_of_int_def Let_def)
next
  case False
  with assms round_to_53_large [of "- p"] show ?thesis
    by (simp add: float_of_int_def Let_def round_to_53_minus)
qed

lemma b64_value_cases:
  "0 \<le> e \<Longrightarrow> b64_value (B64 m e) = real_of_int (m * 2 ^ nat e)"
  "e < 0 \<Longrightarrow> b64_value (B64 m e) = real_of_int m / 2 ^ nat (- e)"
proof -
  assume "0 \<le> e"
  then have "real_of_int e = real (nat e)" by simp
  then have "2 powr real_of_int e = 2 ^ nat e" by (simp only: powr_realpow zero_less_numeral)
  then show "b64_value (B64 m e) = real_of_int (m * 2 ^ nat e)" by simp
next
  assume "e < 0"
  then have "real_of_int e = - real (nat (- e))" by simp
  then have "2 powr real_of_int e = inverse (2 ^ nat (- e))"
    by (simp only: powr_minus powr_realpow zero_less_numeral)
  then show "b64_value (B64 m e) = real_of_int m / 2 ^ nat (- e)"
    by (simp add: divide_inverse)
qed

lemma int_gt_float_iff: "int_gt_float s f \<longleftrightarrow> b64_value f < real_of_int s"
proof (cases f)
  case (B64 m e)
  show ?thesis
  proof (cases "0 \<le> e")
    case True
    then show ?thesis
      unfolding B64 b64_value_cases(1) [OF True]
      by (simp only: int_gt_float.simps of_int_less_iff if_True)
  next
    case False
    then have neg: "e < 0" by simp
    have "real_of_int m / 2 ^ nat (- e) < real_of_int s
        \<longleftrightarrow> real_of_int m < real_of_int (s * 2 ^ nat (- e))"
      by (simp add: pos_divide_less_eq)
    then show ?thesis
      unfolding B64 b64_value_cases(2) [OF neg] using False
      by (simp only: int_gt_float.simps of_int_less_iff if_False)
  qed
qed

lemma upvote_ratio_threshold_value:
  "b64_value upvote_ratio_threshold = 3602879701896397 / 2 ^ 56"
  unfolding upvote_ratio_threshold_def
  using b64_value_cases(2) [of "- 56" 3602879701896397] by simp

section \<open>Properties of the string helpers\<close>

lemma str_split_not_Nil: "str_split sep s \<noteq> []"
  by (induction s) (auto split: list.splits)

lemma str_split_no_sep:
  "sep \<notin> set s \<Longrightarrow> str_split sep s = [s]"
  by (induction s) auto

lemma str_join_split: "str_join sep (str_split sep s) = s"
proof (induction s)
  case Nil
  show ?case by simp
next
  case (Cons c cs)
  show ?case
  proof (cases "c = sep")
    case True
    obtain p ps where ps: "str_split sep cs = p # ps"
      using str_split_not_Nil [of sep cs] by (cases "str_split sep cs") auto
    with True Cons show ?thesis by simp
  next
    case False
    obtain p ps where ps: "str_split sep cs = p # ps"
      using str_split_not_Nil [of sep cs] by (cases "str_split sep cs") auto
    with False Cons show ?thesis by (cases ps) auto
  qed
qed

lemma str_split_hd:
  "hd (str_split sep s) = takeWhile (\<lambda>c. c \<noteq> sep) s"
  by (induction s) (auto split: list.splits simp: str_split_not_Nil)

lemma str_split_tl:
  "str_join sep (tl (str_split sep s)) = drop 1 (dropWhile (\<lambda>c. c \<noteq> sep) s)"
proof (induction s)
  case Nil
  show ?case by simp
next
  case (Cons c cs)
  show ?case
  proof (cases "c = sep")
    case True
    then show ?thesis by (simp add: str_join_split)
  next
    case False
    obtain p ps where ps: "str_split sep cs = p # ps"
      using str_split_not_Nil [of sep cs] by (cases "str_split sep cs") auto
    with False Cons show ?thesis by simp
  qed
qed

lemma submit_args_eq:
  "submit_args s =
     Inr (takeWhile (\<lambda>c. c \<noteq> nl) s, drop 1 (dropWhile (\<lambda>c. c \<noteq> nl) s))"
proof -
  obtain p ps where ps: "str_split nl s = p # ps"
    using str_split_not_Nil [of nl s] by (cases "str_split nl s") auto
  have "p = takeWhile (\<lambda>c. c \<noteq> nl) s"
    using str_split_hd [of nl s] ps by simp
  moreover have "str_join nl ps = drop 1 (dropWhile (\<lambda>c. c \<noteq> nl) s)"
    using str_split_tl [of nl s] ps by simp
  ultimately show ?thesis by (simp add: submit_args_def ps)
qed

section \<open>What each step leaves untouched\<close>

lemma make_post_eq:
  "make_post e sub pc s =
     (Inl (case submit_result e (takeWhile (\<lambda>c. c \<noteq> nl) pc)
                  (drop 1 (dropWhile (\<lambda>c. c \<noteq> nl) pc)) of
             Inl err \<Rightarrow> err
           | Inr post_id \<Rightarrow> TypeError),
      platform e
        (Submit sub (takeWhile (\<lambda>c. c \<noteq> nl) pc) (drop 1 (dropWhile (\<lambda>c. c \<noteq> nl) pc))) s)"
  by (simp add: make_post_def submit_args_eq Let_def update_post_one_argument
      split: sum.splits)

lemma submitted_log:
  "submitted s = concat (map submission_of (map snd (platform_log s)))"
  by (simp add: submitted_def comp_def)

lemma replied_log:
  "replied s = concat (map reply_of (map snd (platform_log s)))"
  by (simp add: replied_def comp_def)

lemma platform_keeps [simp]:
  "files (platform e c s) = files s"
  "data (platform e c s) = data s"
  "stdout (platform e c s) = stdout s"
  "llm_calls (platform e c s) = llm_calls s"
  "polls (platform e c s) = polls s"
  "platform_log (platform e c s) = platform_log s @ [(clock s, c)]"
  by (simp_all add: platform_def external_def)

lemma print_line_keeps [simp]:
  "files (print_line m s) = files s"
  "data (print_line m s) = data s"
  "platform_log (print_line m s) = platform_log s"
  "llm_calls (print_line m s) = llm_calls s"
  "clock (print_line m s) = clock s"
  "stdout (print_line m s) = stdout s @ [m]"
  by (simp_all add: print_line_def)

lemma sleep_keeps [simp]:
  "files (sleep d s) = files s"
  "data (sleep d s) = data s"
  "platform_log (sleep d s) = platform_log s"
  "llm_calls (sleep d s) = llm_calls s"
  "clock (sleep d s) = clock s + d"
  by (simp_all add: sleep_def)

lemma respect_rate_limit_keeps [simp]:
  "files (respect_rate_limit s) = files s"
  "data (respect_rate_limit s) = data s"
  "platform_log (respect_rate_limit s) = platform_log s"
  "llm_calls (respect_rate_limit s) = llm_calls s"
  "stdout (respect_rate_limit s) = stdout s"
  by (simp_all add: respect_rate_limit_def sleep_def Let_def)

lemma ask_keeps [simp]:
  "files (snd (ask v e prompt s)) = files s"
  "data (snd (ask v e prompt s)) = data s"
  "platform_log (snd (ask v e prompt s)) = platform_log s"
  "llm_calls (snd (ask v e prompt s)) = Suc (llm_calls s)"
  by (auto simp: ask_def provider_def generate_text_def external_def print_line_def
      split: variant.splits sum.splits prod.splits)

lemma replied_steps [simp]:
  "replied (platform e c s) = replied s @ reply_of c"
  "replied (print_line m s) = replied s"
  "replied (sleep d s) = replied s"
  "replied (snd (ask v e prompt s)) = replied s"
  "replied (s\<lparr>data := d0\<rparr>) = replied s"
  "replied (s\<lparr>polls := k\<rparr>) = replied s"
  by (simp_all add: replied_def)

lemma submitted_steps [simp]:
  "submitted (platform e c s) = submitted s @ submission_of c"
  "submitted (print_line m s) = submitted s"
  "submitted (sleep d s) = submitted s"
  "submitted (snd (ask v e prompt s)) = submitted s"
  "submitted (s\<lparr>data := d0\<rparr>) = submitted s"
  "submitted (s\<lparr>polls := k\<rparr>) = submitted s"
  by (simp_all add: submitted_def)

lemma ask_result:
  "fst (ask OpenAI e prompt s) = llm e (llm_calls s)"
  "fst (ask Gemini e prompt s) =
     Inr (case llm e (llm_calls s) of Inl err \<Rightarrow> [] | Inr text \<Rightarrow> text)"
  by (auto simp: ask_def provider_def generate_text_def split: sum.splits)

lemma ask_text:
  "llm e (llm_calls s) = Inr text \<Longrightarrow> fst (ask v e prompt s) = Inr text"
  by (cases v) (simp_all add: ask_result)

lemma get_subreddit_keeps [simp]:
  "files (snd (get_subreddit e sn s)) = files s"
  "data (snd (get_subreddit e sn s)) = data s"
  "llm_calls (snd (get_subreddit e sn s)) = llm_calls s"
  "map snd (platform_log (snd (get_subreddit e sn s)))
     = map snd (platform_log s) @ [GetSubreddit sn]"
  "fst (get_subreddit e sn s) = (if subreddit_accessible e sn then Some sn else None)"
  "replied (snd (get_subreddit e sn s)) = replied s"
  "submitted (snd (get_subreddit e sn s)) = submitted s"
  by (auto simp: get_subreddit_def Let_def replied_def submitted_def)

lemma analyze_subreddit_keeps [simp]:
  "files (snd (analyze_subreddit v e sub s)) = files s"
  "data (snd (analyze_subreddit v e sub s)) = data s"
  "map snd (platform_log (snd (analyze_subreddit v e sub s)))
     = map snd (platform_log s) @ [Hot sub]"
  "replied (snd (analyze_subreddit v e sub s)) = replied s"
  "submitted (snd (analyze_subreddit v e sub s)) = submitted s"
  by (auto simp: analyze_subreddit_def Let_def split: sum.splits)

lemma analyze_subreddit_text:
  "hot_listing e = Inr ps \<Longrightarrow> llm e (llm_calls s) = Inr text \<Longrightarrow>
     fst (analyze_subreddit v e sub s) = Inr text
     \<and> llm_calls (snd (analyze_subreddit v e sub s)) = Suc (llm_calls s)"
  by (simp add: analyze_subreddit_def Let_def ask_text)

lemma generate_post_keeps [simp]:
  "files (snd (generate_post v e sg rp s)) = files s"
  "data (snd (generate_post v e sg rp s)) = data s"
  "platform_log (snd (generate_post v e sg rp s)) = platform_log s"
  "replied (snd (generate_post v e sg rp s)) = replied s"
  "submitted (snd (generate_post v e sg rp s)) = submitted s"
  by (auto simp: generate_post_def)

lemma generate_post_text:
  "llm e (llm_calls s) = Inr text \<Longrightarrow> fst (generate_post v e sg rp s) = Inr text"
  by (simp add: generate_post_def ask_text)

section \<open>What a run of the orchestrator comes to\<close>

lemma run_research_files:
  "files (snd (run_research v e p sn rid s)) = files s"
  by (simp add: run_research_def make_post_eq Let_def initialize_research_def case_prod_beta
      split: option.splits sum.splits)

lemma run_research_no_id:
  "fst (run_research v e p sn rid s) \<noteq> Inr (Some r)"
  by (simp add: run_research_def make_post_eq Let_def initialize_research_def case_prod_beta
      split: option.splits sum.splits)

lemma run_research_replied:
  "replied (snd (run_research v e p sn rid s)) = replied s"
  by (simp add: run_research_def make_post_eq Let_def initialize_research_def case_prod_beta
      split: option.splits sum.splits)

lemma run_research_unresolved:
  assumes "\<not> subreddit_accessible e sn"
  shows "fst (run_research v e p sn rid s) = Inr None"
    and "map snd (platform_log (snd (run_research v e p sn rid s)))
           = map snd (platform_log s) @ [GetSubreddit sn]"
    and "data (snd (run_research v e p sn rid s)) = data s"
  using assms
  by (simp_all add: run_research_def Let_def case_prod_beta split: option.splits)

lemma run_research_posts:
  assumes "subreddit_accessible e sn" and "hot_listing e = Inr ps"
    and "llm e (llm_calls s) = Inr style" and "llm e (Suc (llm_calls s)) = Inr content"
  shows "fst (run_research v e p sn rid s) = Inr None"
    and "map snd (platform_log (snd (run_research v e p sn rid s)))
           = map snd (platform_log s) @
               [GetSubreddit sn, Hot sn,
                Submit sn (takeWhile (\<lambda>c. c \<noteq> nl) content)
                  (drop 1 (dropWhile (\<lambda>c. c \<noteq> nl) content))]"
proof -
  let ?s1 = "snd (get_subreddit e sn s)"
  have a: "fst (analyze_subreddit v e sn ?s1) = Inr style"
    "llm_calls (snd (analyze_subreddit v e sn ?s1)) = Suc (llm_calls s)"
    using analyze_subreddit_text [of e ps ?s1 style v sn] assms by simp_all
  have g: "fst (generate_post v e style p (snd (analyze_subreddit v e sn ?s1))) = Inr content"
    using generate_post_text [of e "snd (analyze_subreddit v e sn ?s1)" content v style p]
      a assms by simp
  show "fst (run_research v e p sn rid s) = Inr None"
    using assms a g
    by (simp add: run_research_def make_post_eq Let_def initialize_research_def
        case_prod_beta split: option.splits sum.splits)
  show "map snd (platform_log (snd (run_research v e p sn rid s)))
           = map snd (platform_log s) @
               [GetSubreddit sn, Hot sn,
                Submit sn (takeWhile (\<lambda>c. c \<noteq> nl) content)
                  (drop 1 (dropWhile (\<lambda>c. c \<noteq> nl) content))]"
    using assms a g
    by (simp add: run_research_def make_post_eq Let_def initialize_research_def
        case_prod_beta split: option.splits sum.splits)
qed

section \<open>What the monitoring loop comes to\<close>

lemma monitor_pass_frame:
  assumes "monitor_pass v e pid pc g s = (f, g1, s1)"
  shows "g1 = g" and "data s1 = data s" and "files s1 = files s"
    and "replied s1 = replied s" and "submitted s1 = submitted s"
    and "llm_calls s1 = llm_calls s" and "f \<noteq> Break"
  using assms
  by (auto simp: monitor_pass_def Let_def update_post_one_argument
      split: option.splits if_splits prod.splits dest!: process_comments_frame)

lemma monitor_pass_variant:
  "monitor_pass v e pid pc g s = monitor_pass w e pid pc g s"
proof -
  have "process_comments v e pc = process_comments w e pc"
    by (intro ext) (rule process_comments_variant)
  then show ?thesis unfolding monitor_pass_def by (simp only:)
qed

lemma monitor_frame:
  "fst (monitor v e pid pc st g s) = g
   \<and> data (snd (monitor v e pid pc st g s)) = data s
   \<and> files (snd (monitor v e pid pc st g s)) = files s
   \<and> replied (snd (monitor v e pid pc st g s)) = replied s
   \<and> submitted (snd (monitor v e pid pc st g s)) = submitted s
   \<and> llm_calls (snd (monitor v e pid pc st g s)) = llm_calls s
   \<and> monitoring_duration \<le> clock (snd (monitor v e pid pc st g s)) - st"
proof (induction v e pid pc st g s rule: monitor.induct)
  case (1 v e pid pc st g s)
  show ?case
  proof (cases "clock s - st < monitoring_duration")
    case False
    then have "monitor v e pid pc st g s = (g, s)" by (subst monitor.simps) simp
    with False show ?thesis by simp
  next
    case True
    obtain f g1 s1 where mp: "monitor_pass v e pid pc g s = (f, g1, s1)"
      by (cases "monitor_pass v e pid pc g s") auto
    note fr = monitor_pass_frame [OF mp]
    show ?thesis
    proof (cases f)
      case Continue
      have "monitor v e pid pc st g s = monitor v e pid pc st g1 s1"
        using True mp Continue by (subst monitor.simps) simp
      moreover note "1.IH"(1) [OF True mp [symmetric] Continue refl]
      ultimately show ?thesis using fr by simp
    next
      case Break
      with fr show ?thesis by simp
    next
      case (Raised err)
      have "monitor v e pid pc st g s = monitor v e pid pc st g1
              (sleep check_interval
                 (print_line (''Error monitoring responses: '' @ error_text err) s1))"
        using True mp Raised by (subst monitor.simps) simp
      moreover note "1.IH"(2) [OF True mp [symmetric] Raised refl]
      ultimately show ?thesis using fr by simp
    qed
  qed
qed

lemma monitor_variant:
  "monitor v e pid pc st g s = monitor w e pid pc st g s"
proof (induction v e pid pc st g s rule: monitor.induct)
  case (1 v e pid pc st g s)
  show ?case
  proof (cases "clock s - st < monitoring_duration")
    case False
    then have "monitor v e pid pc st g s = (g, s)" "monitor w e pid pc st g s = (g, s)"
      by (subst monitor.simps, simp)+
    then show ?thesis by simp
  next
    case True
    obtain f g1 s1 where mp: "monitor_pass v e pid pc g s = (f, g1, s1)"
      by (cases "monitor_pass v e pid pc g s") auto
    then have mpw: "monitor_pass w e pid pc g s = (f, g1, s1)"
      using monitor_pass_variant [of w e pid pc g s v] by simp
    show ?thesis
    proof (cases f)
      case Continue
      note "1.IH"(1) [OF True mp [symmetric] Continue refl]
      then show ?thesis using True mp mpw Continue
        by (subst monitor.simps, subst (2) monitor.simps) simp
    next
      case Break
      then show ?thesis using True mp mpw
        by (subst monitor.simps, subst (2) monitor.simps) simp
    next
      case (Raised err)
      note "1.IH"(2) [OF True mp [symmetric] Raised refl]
      then show ?thesis using True mp mpw Raised
        by (subst monitor.simps, subst (2) monitor.simps) simp
    qed
  qed
qed

lemma run_research_drafted:
  assumes "subreddit_accessible e sn"
    and "fst (analyze_subreddit v e sn (snd (get_subreddit e sn s))) = Inr style"
    and "fst (generate_post v e style p
               (snd (analyze_subreddit v e sn (snd (get_subreddit e sn s))))) = Inr content"
  shows "fst (run_research v e p sn rid s) = Inr None"
    and "submitted (snd (run_research v e p sn rid s))
           = submitted s @ [(sn, takeWhile (\<lambda>c. c \<noteq> nl) content,
                             drop 1 (dropWhile (\<lambda>c. c \<noteq> nl) content))]"
  using assms
  by (simp_all add: run_research_def make_post_eq Let_def initialize_research_def
      case_prod_beta split: option.splits sum.splits)

lemma run_research_undrafted:
  assumes "subreddit_accessible e sn"
    and "fst (analyze_subreddit v e sn (snd (get_subreddit e sn s))) = Inl err"
  shows "fst (run_research v e p sn rid s) = Inl err"
    and "submitted (snd (run_research v e p sn rid s)) = submitted s"
  using assms
  by (simp_all add: run_research_def Let_def case_prod_beta split: option.splits sum.splits)

lemma analyze_subreddit_result:
  "hot_listing e = Inr ps \<Longrightarrow>
     fst (analyze_subreddit v e sub s) =
       fst (ask v e (style_prompt v (json_dumps e (PList (map post_entry (take 10 ps)))))
              (platform e (Hot sub) s))
     \<and> llm_calls (snd (analyze_subreddit v e sub s)) = Suc (llm_calls s)"
  by (simp add: analyze_subreddit_def Let_def)

lemma run_research_data:
  assumes "data (snd (run_research v e p sn rid s)) k = Some r"
  shows "data s k = Some r \<or> bot_snapshots r = []"
  using assms
  by (auto simp: run_research_def make_post_eq Let_def initialize_research_def
      case_prod_beta bot_snapshots_def split: option.splits sum.splits if_splits)

lemma respect_rate_limit_waits:
  "rate_limit_delay \<le> clock (respect_rate_limit s) - last_api_call s
   \<and> last_api_call (respect_rate_limit s) = clock (respect_rate_limit s)
   \<and> clock s \<le> clock (respect_rate_limit s)"
  by (simp add: respect_rate_limit_def Let_def sleep_def)

lemma monitor_and_save_frame:
  "data (snd (monitor_and_save v e rid pid pc s)) = data s
   \<and> replied (snd (monitor_and_save v e rid pid pc s)) = replied s
   \<and> monitoring_duration \<le> clock (snd (monitor_and_save v e rid pid pc s)) - clock s"
proof -
  obtain g s1 where m: "monitor v e pid pc (clock s) {||} s = (g, s1)"
    by (cases "monitor v e pid pc (clock s) {||} s") auto
  from monitor_frame [of v e pid pc "clock s" "{||}" s] m
  have "data s1 = data s" "replied s1 = replied s" "monitoring_duration \<le> clock s1 - clock s"
    by simp_all
  then show ?thesis
    by (simp add: monitor_and_save_def m replied_def case_prod_beta split: option.splits)
qed

lemma run_research_env_ok_log:
  "platform_log (snd (run_research v env_ok ''topic'' ''smartphones'' (Some ''r1'')
      (init_state 1000)))
     = [(1000, GetSubreddit ''smartphones''), (1001, Hot ''smartphones''),
        (1004, Submit ''smartphones'' ''Title Line'' ''Body line'')]"
  by (cases v)
    (simp_all add: run_research_def make_post_eq Let_def initialize_research_def
      get_subreddit_def analyze_subreddit_def generate_post_def ask_def provider_def
      generate_text_def platform_def external_def print_line_def respect_rate_limit_def
      sleep_def env_ok_def init_state_def rate_limit_delay_def nl_def)

lemma generate_text_failure:
  assumes "llm e (llm_calls s) = Inl err"
  shows "fst (generate_text e prompt s) = []"
    and "stdout (snd (generate_text e prompt s))
           = stdout s @ [''Error generating text with Gemini: '' @ error_text err]"
  using assms
  by (simp_all add: generate_text_def provider_def external_def print_line_def)

lemma generate_text_success:
  assumes "llm e (llm_calls s) = Inr text"
  shows "fst (generate_text e prompt s) = text"
    and "stdout (snd (generate_text e prompt s)) = stdout s"
  using assms
  by (simp_all add: generate_text_def provider_def external_def print_line_def)

lemma run_research_gemini_degraded:
  assumes "subreddit_accessible e sn" and "hot_listing e = Inr ps"
    and "llm e (llm_calls s) = Inl err" and "llm e (Suc (llm_calls s)) = Inl err_b"
  shows "fst (run_research Gemini e p sn rid s) = Inr None"
    and "submitted (snd (run_research Gemini e p sn rid s)) = submitted s @ [(sn, [], [])]"
proof -
  let ?s1 = "snd (get_subreddit e sn s)"
  have a: "fst (analyze_subreddit Gemini e sn ?s1) = Inr []"
    "llm_calls (snd (analyze_subreddit Gemini e sn ?s1)) = Suc (llm_calls s)"
    using analyze_subreddit_result [of e ps Gemini sn ?s1] assms
    by (simp_all add: ask_result)
  have g: "fst (generate_post Gemini e [] p (snd (analyze_subreddit Gemini e sn ?s1))) = Inr []"
    using a assms by (simp add: generate_post_def ask_result)
  from run_research_drafted [OF assms(1) a(1) g]
  show "fst (run_research Gemini e p sn rid s) = Inr None"
    and "submitted (snd (run_research Gemini e p sn rid s)) = submitted s @ [(sn, [], [])]"
    by simp_all
qed

lemma run_research_openai_raises:
  assumes "subreddit_accessible e sn" and "hot_listing e = Inr ps"
    and "llm e (llm_calls s) = Inl err"
  shows "fst (run_research OpenAI e p sn rid s) = Inl err"
    and "submitted (snd (run_research OpenAI e p sn rid s)) = submitted s"
proof -
  let ?s1 = "snd (get_subreddit e sn s)"
  have a: "fst (analyze_subreddit OpenAI e sn ?s1) = Inl err"
    using analyze_subreddit_result [of e ps OpenAI sn ?s1] assms
    by (simp add: ask_result)
  from run_research_undrafted [OF assms(1) a]
  show "fst (run_research OpenAI e p sn rid s) = Inl err"
    and "submitted (snd (run_research OpenAI e p sn rid s)) = submitted s"
    by simp_all
qed

lemma env_llm_down_facts:
  "subreddit_accessible env_llm_down ''smartphones''"
  "hot_listing env_llm_down
     = Inr [\<lparr>hot_title = ''Best phone'', hot_selftext = Some ''so far'', hot_score = 10\<rparr>]"
  "llm env_llm_down k = Inl LLMError"
  by (simp_all add: env_llm_down_def env_ok_def)

lemma without_prompts_keeps:
  "files s = files (without_prompts s)"
  "data s = data (without_prompts s)"
  "submitted s = submitted (without_prompts s)"
  "replied s = replied (without_prompts s)"
  "stdout s = stdout (without_prompts s)"
  by (simp_all add: without_prompts_def submitted_def replied_def)

lemma run_research_agree:
  assumes "llm e (llm_calls s) = Inr style" and "llm e (Suc (llm_calls s)) = Inr content"
  shows "fst (run_research OpenAI e p sn rid s) = fst (run_research Gemini e p sn rid s)"
    and "without_prompts (snd (run_research OpenAI e p sn rid s))
           = without_prompts (snd (run_research Gemini e p sn rid s))"
  using assms
  by (simp_all add: run_research_def make_post_eq Let_def initialize_research_def
      get_subreddit_def analyze_subreddit_def generate_post_def ask_def provider_def
      generate_text_def platform_def external_def print_line_def respect_rate_limit_def
      sleep_def without_prompts_def
      split: sum.splits option.splits)

lemma process_comment_replied:
  "replied (snd (snd (process_comment v e pc sc c g s))) = replied s"
  by (simp add: process_comment_eq)

lemma run_research_fresh_replied:
  "replied (snd (run_research v e p sn rid (init_state now))) = []"
  by (simp add: run_research_replied) (simp add: replied_def init_state_def)

lemma run_research_fresh_snapshots:
  "data (snd (run_research v e p sn rid (init_state now))) k = Some r \<Longrightarrow> bot_snapshots r = []"
  using run_research_data [of v e p sn rid "init_state now" k r]
  by (simp add: init_state_def)



section \<open>The claims\<close>

text \<open>
  C4. The reply-worthiness predicate is a function of the comment's score \<open>s\<close> and the
  post's score \<open>p\<close> alone. It is false when \<open>s\<close> does not exceed \<open>min_upvotes\<close>, without
  looking at \<open>p\<close>. Otherwise it converts \<open>p\<close> to binary64, which raises
  \<open>OverflowError\<close> when \<open>p\<close> is \<open>2 ^ 1024\<close> or more in absolute value, and is true
  exactly when \<open>s\<close> exceeds the rounded binary64 product of \<open>p\<close> and the threshold. For
  post scores of at most \<open>2 ^ 52\<close> in absolute value this is the claim as stated for
  the real product: true exactly when \<open>s\<close> exceeds \<open>min_upvotes\<close> and exceeds \<open>p\<close> times
  5/100, that is when \<open>s\<close> exceeds 5 and \<open>20 * s\<close> exceeds \<open>p\<close>, and false at the
  boundary where \<open>s\<close> equals \<open>p\<close> times 5/100.
\<close>

theorem should_reply_binary64:
  "(comment_score c \<le> min_upvotes \<longrightarrow> should_reply c p = Inr False)
   \<and> (min_upvotes < comment_score c \<and> 2 ^ 1024 \<le> \<bar>p\<bar>
        \<longrightarrow> should_reply c p = Inl OverflowError)
   \<and> (float_of_int p = Inr f
        \<longrightarrow> should_reply c p =
              Inr (min_upvotes < comment_score c
                   \<and> b64_value (float_mul f upvote_ratio_threshold)
                       < real_of_int (comment_score c)))
   \<and> (\<bar>p\<bar> \<le> 2 ^ 52
        \<longrightarrow> should_reply c p =
              Inr (min_upvotes < comment_score c
                   \<and> real_of_int p * (5 / 100) < real_of_int (comment_score c)))
   \<and> (\<bar>p\<bar> \<le> 2 ^ 52 \<and> real_of_int (comment_score c) = real_of_int p * (5 / 100)
        \<longrightarrow> should_reply c p = Inr False)
   \<and> (\<bar>p\<bar> \<le> 2 ^ 52
        \<longrightarrow> should_reply c p = Inr (5 < comment_score c \<and> p < 20 * comment_score c))"
proof -
  have real: "real_of_int p * (5 / 100) < real_of_int (comment_score c)
          \<longleftrightarrow> p < 20 * comment_score c"
  proof -
    have "real_of_int p * (5 / 100) < real_of_int (comment_score c)
          \<longleftrightarrow> real_of_int p < real_of_int (20 * comment_score c)"
      by (simp add: field_simps)
    then show ?thesis by (simp only: of_int_less_iff)
  qed
  have "min_upvotes < comment_score c \<and> 2 ^ 1024 \<le> \<bar>p\<bar>
        \<Longrightarrow> should_reply c p = Inl OverflowError"
    using float_of_int_overflow [of p] by (simp add: should_reply_def)
  moreover have "float_of_int p = Inr f
        \<Longrightarrow> should_reply c p =
              Inr (min_upvotes < comment_score c
                   \<and> b64_value (float_mul f upvote_ratio_threshold)
                       < real_of_int (comment_score c))"
    by (simp add: should_reply_def int_gt_float_iff)
  moreover have "\<bar>p\<bar> \<le> 2 ^ 52
        \<Longrightarrow> should_reply c p = Inr (5 < comment_score c \<and> p < 20 * comment_score c)"
    by (rule should_reply_small)
  ultimately show ?thesis
    using real by (simp add: should_reply_def min_upvotes_def)
qed

theorem should_reply_binary64_witness:
  "comment_score (worthy_comment\<lparr>comment_score := 5\<rparr>) \<le> min_upvotes
   \<and> should_reply (worthy_comment\<lparr>comment_score := 5\<rparr>) 0 = Inr False
   \<and> min_upvotes < comment_score worthy_comment
   \<and> (2::int) ^ 1024 \<le> \<bar>2 ^ 1024\<bar>
   \<and> should_reply worthy_comment (2 ^ 1024) = Inl OverflowError
   \<and> float_of_int 100 = Inr (B64 100 0)
   \<and> \<bar>100 :: int\<bar> \<le> 2 ^ 52
   \<and> should_reply worthy_comment 100 = Inr True
   \<and> \<bar>120 :: int\<bar> \<le> 2 ^ 52
   \<and> real_of_int (comment_score worthy_comment) = real_of_int 120 * (5 / 100)
   \<and> should_reply worthy_comment 120 = Inr False"
proof -
  have f: "float_of_int 100 = Inr (B64 100 0)"
    by (simp add: float_of_int_def round_to_53_small)
  have lo: "comment_score (worthy_comment\<lparr>comment_score := 5\<rparr>) \<le> min_upvotes"
    and hi: "min_upvotes < comment_score worthy_comment"
    and b: "real_of_int (comment_score worthy_comment) = real_of_int 120 * (5 / 100)"
    by (simp_all add: min_upvotes_def worthy_comment_def)
  have big: "(2::int) ^ 1024 \<le> \<bar>2 ^ 1024\<bar>" by simp
  have small: "\<bar>100 :: int\<bar> \<le> 2 ^ 52" "\<bar>120 :: int\<bar> \<le> 2 ^ 52" by simp_all
  have "should_reply (worthy_comment\<lparr>comment_score := 5\<rparr>) 0 = Inr False"
    using should_reply_binary64 [of "worthy_comment\<lparr>comment_score := 5\<rparr>" 0 "B64 0 0"] lo
    by blast
  moreover have "should_reply worthy_comment (2 ^ 1024) = Inl OverflowError"
    using should_reply_binary64 [of worthy_comment "2 ^ 1024" "B64 0 0"] hi big by blast
  moreover have "should_reply worthy_comment 100 = Inr True"
    using should_reply_binary64 [of worthy_comment 100 "B64 100 0"] small(1)
    by (simp add: worthy_comment_def min_upvotes_def)
  moreover have "should_reply worthy_comment 120 = Inr False"
    using should_reply_binary64 [of worthy_comment 120 "B64 0 0"] small(2) b by blast
  ultimately show ?thesis using f lo hi b big small by blast
qed

theorem should_reply_differs_from_real_product:
  "min_upvotes < 492581209243647
   \<and> real_of_int 9851624184872939 * (5 / 100) < real_of_int 492581209243647
   \<and> real_of_int 9851624184872939 * b64_value upvote_ratio_threshold
       < real_of_int 492581209243647
   \<and> should_reply (worthy_comment\<lparr>comment_score := 492581209243647\<rparr>) 9851624184872939
       = Inr False
   \<and> real_of_int 1152921504606846977 = real_of_int 23058430092136939540 * (5 / 100)
   \<and> should_reply (worthy_comment\<lparr>comment_score := 1152921504606846977\<rparr>)
        23058430092136939540 = Inr True"
proof -
  have "should_reply (worthy_comment\<lparr>comment_score := 492581209243647\<rparr>) 9851624184872939
       = Inr False"
    by (simp add: should_reply_def float_of_int_def round_to_53_def upvote_ratio_threshold_def
        min_upvotes_def bit_length.simps Let_def)
  moreover have "should_reply (worthy_comment\<lparr>comment_score := 1152921504606846977\<rparr>)
        23058430092136939540 = Inr True"
    by (simp add: should_reply_def float_of_int_def round_to_53_def upvote_ratio_threshold_def
        min_upvotes_def bit_length.simps Let_def)
  ultimately show ?thesis
    by (simp add: min_upvotes_def upvote_ratio_threshold_value)
qed

text \<open>
  C8. Whatever text the post drafter returns, the title handed to the platform is the
  part of the text before its first line break and the body is the part after that
  line break; a text without a line break is the title, with an empty body, and
  nothing requires the title to be non-empty. The text \<open>Title Line\<close>, line break,
  \<open>Body line\<close> gives the title \<open>Title Line\<close> and the body \<open>Body line\<close>; a text
  that starts with a line break gives the empty title. In a run
  whose subreddit resolves, whose listing succeeds and whose two language-model calls
  return a style guide and the text, these are the title and body of the one
  submission made.
\<close>

theorem submitted_title_and_body:
  "(\<exists>title body. submit_args content = Inr (title, body)
      \<and> (nl \<in> set content \<longrightarrow> content = title @ nl # body \<and> nl \<notin> set title)
      \<and> (nl \<notin> set content \<longrightarrow> title = content \<and> body = []))
   \<and> submit_args (''Title Line'' @ [nl] @ ''Body line'') = Inr (''Title Line'', ''Body line'')
   \<and> submit_args (nl # ''Body line'') = Inr ([], ''Body line'')
   \<and> (subreddit_accessible e sn \<and> hot_listing e = Inr ps
        \<and> llm e (llm_calls s) = Inr style \<and> llm e (Suc (llm_calls s)) = Inr content
        \<and> submit_args content = Inr (t, b)
       \<longrightarrow> submitted (snd (run_research v e p sn rid s)) = submitted s @ [(sn, t, b)])"
proof (intro conjI impI)
  let ?t = "takeWhile (\<lambda>c. c \<noteq> nl) content"
  let ?b = "drop 1 (dropWhile (\<lambda>c. c \<noteq> nl) content)"
  have split: "content = ?t @ dropWhile (\<lambda>c. c \<noteq> nl) content" by simp
  have "nl \<in> set content \<Longrightarrow> content = ?t @ nl # ?b"
  proof -
    assume "nl \<in> set content"
    then have "dropWhile (\<lambda>c. c \<noteq> nl) content \<noteq> []" by simp
    then have "dropWhile (\<lambda>c. c \<noteq> nl) content = nl # ?b"
      using hd_dropWhile [of "\<lambda>c. c \<noteq> nl" content]
      by (cases "dropWhile (\<lambda>c. c \<noteq> nl) content") auto
    with split show ?thesis by metis
  qed
  moreover have "nl \<notin> set ?t" using set_takeWhileD by fastforce
  moreover have "nl \<notin> set content \<Longrightarrow> ?t = content \<and> ?b = []"
  proof -
    assume n: "nl \<notin> set content"
    then have "\<forall>x \<in> set content. x \<noteq> nl" by auto
    then have t: "?t = content" and d: "dropWhile (\<lambda>c. c \<noteq> nl) content = []"
      by (simp_all add: dropWhile_eq_Nil_conv)
    have "?b = []" unfolding d by simp
    with t show ?thesis by (simp only: simp_thms)
  qed
  ultimately show "\<exists>title body. submit_args content = Inr (title, body)
      \<and> (nl \<in> set content \<longrightarrow> content = title @ nl # body \<and> nl \<notin> set title)
      \<and> (nl \<notin> set content \<longrightarrow> title = content \<and> body = [])"
    using submit_args_eq [of content] by blast
next
  show "submit_args (''Title Line'' @ [nl] @ ''Body line'') = Inr (''Title Line'', ''Body line'')"
    by (simp add: submit_args_def nl_def)
next
  show "submit_args (nl # ''Body line'') = Inr ([], ''Body line'')"
    by (simp add: submit_args_def nl_def)
next
  assume h: "subreddit_accessible e sn \<and> hot_listing e = Inr ps
        \<and> llm e (llm_calls s) = Inr style \<and> llm e (Suc (llm_calls s)) = Inr content
        \<and> submit_args content = Inr (t, b)"
  then have tb: "t = takeWhile (\<lambda>c. c \<noteq> nl) content"
      "b = drop 1 (dropWhile (\<lambda>c. c \<noteq> nl) content)"
    by (simp_all add: submit_args_eq)
  from h have "map snd (platform_log (snd (run_research v e p sn rid s)))
           = map snd (platform_log s) @ [GetSubreddit sn, Hot sn, Submit sn t b]"
    using run_research_posts(2) [of e sn ps s style content v p rid] tb by simp
  then show "submitted (snd (run_research v e p sn rid s)) = submitted s @ [(sn, t, b)]"
    by (simp add: submitted_log)
qed

theorem submitted_title_and_body_witness:
  "nl \<in> set (''Title Line'' @ [nl] @ ''Body line'')
   \<and> subreddit_accessible env_ok ''smartphones''
   \<and> hot_listing env_ok = Inr [\<lparr>hot_title = ''Best phone'', hot_selftext = Some ''so far'',
                          hot_score = 10\<rparr>]
   \<and> llm env_ok (llm_calls (init_state 1000)) = Inr ''style guide''
   \<and> llm env_ok (Suc (llm_calls (init_state 1000))) = Inr (''Title Line'' @ [nl] @ ''Body line'')
   \<and> submit_args (''Title Line'' @ [nl] @ ''Body line'') = Inr (''Title Line'', ''Body line'')
   \<and> submitted (snd (run_research OpenAI env_ok ''topic'' ''smartphones'' (Some ''r1'')
        (init_state 1000)))
       = [(''smartphones'', ''Title Line'', ''Body line'')]
   \<and> nl \<notin> set ''No line break''
   \<and> submit_args ''No line break'' = Inr (''No line break'', [])"
  using submitted_title_and_body [of "''Title Line'' @ [nl] @ ''Body line''" env_ok
      "''smartphones''"
      "[\<lparr>hot_title = ''Best phone'', hot_selftext = Some ''so far'', hot_score = 10\<rparr>]"
      "init_state 1000" "''style guide''" "''Title Line''" "''Body line''" OpenAI "''topic''"
      "Some ''r1''"]
    submitted_title_and_body [of "''No line break''"]
  by (simp add: env_ok_def init_state_def submitted_def nl_def)

text \<open>
  C6. When the subreddit cannot be resolved, \<open>run_research\<close> returns \<open>None\<close>; the only
  platform call made is the resolution attempt, so nothing is submitted and no reply
  is posted; no file is written and no research record is created.
\<close>

theorem unresolved_subreddit_aborts:
  assumes "\<not> subreddit_accessible e sn"
  shows "fst (run_research v e p sn rid s) = Inr None
    \<and> map snd (platform_log (snd (run_research v e p sn rid s)))
        = map snd (platform_log s) @ [GetSubreddit sn]
    \<and> submitted (snd (run_research v e p sn rid s)) = submitted s
    \<and> replied (snd (run_research v e p sn rid s)) = replied s
    \<and> files (snd (run_research v e p sn rid s)) = files s
    \<and> data (snd (run_research v e p sn rid s)) = data s"
  using assms run_research_unresolved [of e sn v p rid s]
  by (simp add: run_research_files run_research_replied submitted_log)

theorem unresolved_subreddit_aborts_witness:
  "\<not> subreddit_accessible env_ok ''nosuchsub''
   \<and> fst (run_research Gemini env_ok ''topic'' ''nosuchsub'' None (init_state 1000)) = Inr None
   \<and> submitted (snd (run_research Gemini env_ok ''topic'' ''nosuchsub'' None (init_state 1000))) = []
   \<and> files (snd (run_research Gemini env_ok ''topic'' ''nosuchsub'' None (init_state 1000)))
       = Map.empty"
  using unresolved_subreddit_aborts [of env_ok "''nosuchsub''" Gemini "''topic''" None
      "init_state 1000"]
  by (simp add: env_ok_def init_state_def submitted_def)

text \<open>
  C1. A run in which the subreddit resolves and the platform accepts the submission:
  the post is submitted, yet \<open>run_research\<close> returns \<open>None\<close> and writes no file. The
  snapshot of the new post reaches \<open>update_post\<close> as its only argument, the
  \<open>TypeError\<close> is caught by the handler around the submission, and the function
  returns there.
\<close>

theorem run_research_none_after_submission:
  "subreddit_accessible env_ok ''smartphones''
   \<and> submit_result env_ok ''Title Line'' ''Body line'' = Inr ''p1''
   \<and> submitted (snd (run_research OpenAI env_ok ''topic'' ''smartphones'' (Some ''r1'')
        (init_state 1000))) = [(''smartphones'', ''Title Line'', ''Body line'')]
   \<and> fst (run_research OpenAI env_ok ''topic'' ''smartphones'' (Some ''r1'') (init_state 1000))
       = Inr None
   \<and> files (snd (run_research OpenAI env_ok ''topic'' ''smartphones'' (Some ''r1'')
        (init_state 1000))) = Map.empty
   \<and> fst (run_research Gemini env_ok ''topic'' ''smartphones'' (Some ''r1'') (init_state 1000))
       = Inr None"
proof -
  have a: "subreddit_accessible env_ok ''smartphones''"
    and h: "hot_listing env_ok = Inr [\<lparr>hot_title = ''Best phone'', hot_selftext = Some ''so far'',
                          hot_score = 10\<rparr>]"
    and l0: "llm env_ok (llm_calls (init_state 1000)) = Inr ''style guide''"
    and l1: "llm env_ok (Suc (llm_calls (init_state 1000)))
               = Inr (''Title Line'' @ [nl] @ ''Body line'')"
    by (simp_all add: env_ok_def init_state_def)
  note r = run_research_posts [OF a h l0 l1]
  have "submitted (snd (run_research OpenAI env_ok ''topic'' ''smartphones'' (Some ''r1'')
        (init_state 1000))) = [(''smartphones'', ''Title Line'', ''Body line'')]"
    using r(2) [of OpenAI "''topic''" "Some ''r1''"]
    by (simp add: submitted_log init_state_def nl_def)
  moreover have "files (snd (run_research OpenAI env_ok ''topic'' ''smartphones'' (Some ''r1'')
        (init_state 1000))) = Map.empty"
    by (simp add: run_research_files init_state_def)
  ultimately show ?thesis using a r(1) by (simp add: env_ok_def)
qed

text \<open>
  C9. A run in which every outside call takes one second: the subreddit is resolved at
  time 1000, the listing of hot posts is requested at 1001 and the post submitted at
  1004, against a configured delay of 120 seconds; in a polling pass the refresh and
  the expansion of the comment threads are one second apart. Only
  \<open>get_subreddit\<close> consults the rate limiter.
\<close>

theorem platform_calls_closer_than_delay:
  "platform_log (snd (run_research OpenAI env_ok ''topic'' ''smartphones'' (Some ''r1'')
      (init_state 1000)))
     = [(1000, GetSubreddit ''smartphones''), (1001, Hot ''smartphones''),
        (1004, Submit ''smartphones'' ''Title Line'' ''Body line'')]
   \<and> gaps (platform_log (snd (run_research OpenAI env_ok ''topic'' ''smartphones''
        (Some ''r1'') (init_state 1000)))) = [1, 3]
   \<and> platform_log (snd (snd (monitor_pass OpenAI env_ok ''p1'' ''Title'' {||} loop_entry)))
     = [(1000, Refresh ''p1''), (1001, ReplaceMore ''p1'')]
   \<and> rate_limit_delay = 120"
proof -
  have "platform_log (snd (snd (monitor_pass OpenAI env_ok ''p1'' ''Title'' {||} loop_entry)))
     = [(1000, Refresh ''p1''), (1001, ReplaceMore ''p1'')]"
    by (simp add: monitor_pass_def Let_def env_ok_def quiet_poll_def loop_entry_def
        init_state_def platform_def external_def sleep_def)
  then show ?thesis
    by (simp add: run_research_env_ok_log rate_limit_delay_def)
qed

text \<open>
  C7. In the Gemini file a failing provider call yields the empty text and one logged
  line, for every prompt, and nothing is raised: post drafting, reply drafting and
  style analysis return the empty text, and a run goes on to submit a post with empty
  title and empty body. In the LangChain file nothing stands between the chain call and
  its caller: the same failure leaves \<open>generate_post\<close>, \<open>generate_reply\<close> and
  \<open>analyze_subreddit\<close> as an exception.
\<close>

theorem generation_failure_by_variant:
  assumes "llm e (llm_calls s) = Inl err"
  shows "fst (generate_text e prompt s) = []
    \<and> stdout (snd (generate_text e prompt s))
        = stdout s @ [''Error generating text with Gemini: '' @ error_text err]
    \<and> fst (generate_post Gemini e style_guide research_prompt s) = Inr []
    \<and> fst (generate_reply Gemini e ctx s) = Inr []
    \<and> (hot_listing e = Inr ps \<longrightarrow> fst (analyze_subreddit Gemini e sub s) = Inr [])
    \<and> (subreddit_accessible e sn \<and> hot_listing e = Inr ps
          \<and> llm e (Suc (llm_calls s)) = Inl err_b
        \<longrightarrow> submitted (snd (run_research Gemini e p sn rid s)) = submitted s @ [(sn, [], [])])
    \<and> fst (generate_post OpenAI e style_guide research_prompt s) = Inl err
    \<and> fst (generate_reply OpenAI e ctx s) = Inl err
    \<and> (hot_listing e = Inr ps \<longrightarrow> fst (analyze_subreddit OpenAI e sub s) = Inl err)"
proof -
  have "hot_listing e = Inr ps \<Longrightarrow> fst (analyze_subreddit Gemini e sub s) = Inr []"
    "hot_listing e = Inr ps \<Longrightarrow> fst (analyze_subreddit OpenAI e sub s) = Inl err"
    using assms analyze_subreddit_result [of e ps _ sub s] by (simp_all add: ask_result)
  moreover have "subreddit_accessible e sn \<and> hot_listing e = Inr ps
          \<and> llm e (Suc (llm_calls s)) = Inl err_b
        \<Longrightarrow> submitted (snd (run_research Gemini e p sn rid s)) = submitted s @ [(sn, [], [])]"
    using assms run_research_gemini_degraded(2) [of e sn ps s err err_b p rid] by simp
  ultimately show ?thesis
    using assms generate_text_failure [OF assms, of prompt]
    by (simp add: generate_post_def generate_reply_def ask_result)
qed

theorem generation_failure_by_variant_witness:
  "llm env_llm_down (llm_calls (init_state 1000)) = Inl LLMError
   \<and> fst (generate_text env_llm_down ''prompt'' (init_state 1000)) = []
   \<and> stdout (snd (generate_text env_llm_down ''prompt'' (init_state 1000)))
       = [''Error generating text with Gemini: LLMError'']
   \<and> fst (generate_reply Gemini env_llm_down ''context'' (init_state 1000)) = Inr []
   \<and> subreddit_accessible env_llm_down ''smartphones''
   \<and> submitted (snd (run_research Gemini env_llm_down ''topic'' ''smartphones'' (Some ''r1'')
        (init_state 1000))) = [(''smartphones'', [], [])]
   \<and> fst (generate_reply OpenAI env_llm_down ''context'' (init_state 1000)) = Inl LLMError"
  using generation_failure_by_variant [where e = env_llm_down and s = "init_state 1000"
      and err = LLMError and prompt = "''prompt''" and ctx = "''context''"
      and ps = "[\<lparr>hot_title = ''Best phone'', hot_selftext = Some ''so far'',
                 hot_score = 10\<rparr>]"
      and sn = "''smartphones''" and err_b = LLMError and p = "''topic''"
      and rid = "Some ''r1''"]
  by (simp add: env_llm_down_facts) (simp add: init_state_def submitted_def)

theorem openai_generation_failure_raises:
  "llm env_llm_down 0 = Inl LLMError
   \<and> fst (generate_post OpenAI env_llm_down ''style guide'' ''topic'' (init_state 1000))
       = Inl LLMError
   \<and> fst (generate_post OpenAI env_llm_down ''style guide'' ''topic'' (init_state 1000))
       \<noteq> Inr []
   \<and> fst (run_research OpenAI env_llm_down ''topic'' ''smartphones'' (Some ''r1'')
        (init_state 1000)) = Inl LLMError"
  using run_research_openai_raises(1) [of env_llm_down "''smartphones''" _ "init_state 1000"
      LLMError "''topic''" "Some ''r1''"]
  by (simp add: env_llm_down_facts generate_post_def ask_result)

text \<open>
  C10. Configuration, reply-worthiness, sentiment scoring and the data agent are the
  same text in both files and are one definition each here. The monitoring loop, and
  the loop followed by the write of the record, compute the same in both variants. For
  the same inputs and platform answers, and provider calls that return text, the two
  variants of \<open>run_research\<close> return the same value and leave the same state apart from
  the prompts sent: the same submission, replies, files, research records and output.
\<close>

theorem variants_agree_when_generation_returns:
  assumes "\<forall>k. \<exists>text. llm e k = Inr text"
  shows "fst (run_research OpenAI e p sn rid s) = fst (run_research Gemini e p sn rid s)
    \<and> without_prompts (snd (run_research OpenAI e p sn rid s))
        = without_prompts (snd (run_research Gemini e p sn rid s))
    \<and> submitted (snd (run_research OpenAI e p sn rid s))
        = submitted (snd (run_research Gemini e p sn rid s))
    \<and> replied (snd (run_research OpenAI e p sn rid s))
        = replied (snd (run_research Gemini e p sn rid s))
    \<and> files (snd (run_research OpenAI e p sn rid s))
        = files (snd (run_research Gemini e p sn rid s))
    \<and> data (snd (run_research OpenAI e p sn rid s))
        = data (snd (run_research Gemini e p sn rid s))
    \<and> monitor OpenAI e post_id post_content start g s = monitor Gemini e post_id post_content start g s
    \<and> monitor_and_save OpenAI e r post_id post_content s
        = monitor_and_save Gemini e r post_id post_content s"
proof -
  obtain style content where
    l: "llm e (llm_calls s) = Inr style" "llm e (Suc (llm_calls s)) = Inr content"
    using assms by blast
  note a = run_research_agree [OF l, of p sn rid]
  have "submitted (snd (run_research OpenAI e p sn rid s))
        = submitted (snd (run_research Gemini e p sn rid s))"
    "replied (snd (run_research OpenAI e p sn rid s))
        = replied (snd (run_research Gemini e p sn rid s))"
    "files (snd (run_research OpenAI e p sn rid s))
        = files (snd (run_research Gemini e p sn rid s))"
    "data (snd (run_research OpenAI e p sn rid s))
        = data (snd (run_research Gemini e p sn rid s))"
    by (subst without_prompts_keeps, subst (2) without_prompts_keeps, simp only: a(2))+
  moreover have "monitor_and_save OpenAI e r post_id post_content s
        = monitor_and_save Gemini e r post_id post_content s"
    by (simp add: monitor_and_save_def monitor_variant [of OpenAI _ _ _ _ _ _ Gemini])
  ultimately show ?thesis
    using a monitor_variant [of OpenAI e post_id post_content start g s Gemini] by simp
qed

theorem variants_agree_when_generation_returns_witness:
  "(\<forall>k. \<exists>text. llm env_ok k = Inr text)
   \<and> fst (run_research OpenAI env_ok ''topic'' ''smartphones'' (Some ''r1'') (init_state 1000))
       = fst (run_research Gemini env_ok ''topic'' ''smartphones'' (Some ''r1'') (init_state 1000))
   \<and> submitted (snd (run_research OpenAI env_ok ''topic'' ''smartphones'' (Some ''r1'')
         (init_state 1000)))
       = submitted (snd (run_research Gemini env_ok ''topic'' ''smartphones'' (Some ''r1'')
         (init_state 1000)))
   \<and> monitor_and_save OpenAI env_worthy ''r1'' ''p1'' ''Title'' loop_entry
       = monitor_and_save Gemini env_worthy ''r1'' ''p1'' ''Title'' loop_entry"
proof -
  have h: "\<forall>k. \<exists>text. llm env_ok k = Inr text" by (simp add: env_ok_def)
  have hw: "\<forall>k. \<exists>text. llm env_worthy k = Inr text" by (simp add: env_worthy_def env_ok_def)
  show ?thesis
    using h variants_agree_when_generation_returns [OF h, of "''topic''" "''smartphones''"
        "Some ''r1''" "init_state 1000"]
      variants_agree_when_generation_returns [OF hw, of _ _ _ loop_entry _ _ _ _ "''r1''" ]
    by simp
qed

theorem variants_differ_when_generation_fails:
  "fst (run_research OpenAI env_llm_down ''topic'' ''smartphones'' (Some ''r1'')
      (init_state 1000)) = Inl LLMError
   \<and> submitted (snd (run_research OpenAI env_llm_down ''topic'' ''smartphones'' (Some ''r1'')
      (init_state 1000))) = []
   \<and> fst (run_research Gemini env_llm_down ''topic'' ''smartphones'' (Some ''r1'')
      (init_state 1000)) = Inr None
   \<and> submitted (snd (run_research Gemini env_llm_down ''topic'' ''smartphones'' (Some ''r1'')
      (init_state 1000))) = [(''smartphones'', [], [])]"
  using run_research_openai_raises [of env_llm_down "''smartphones''" _ "init_state 1000"
      LLMError "''topic''" "Some ''r1''"]
    run_research_gemini_degraded [of env_llm_down "''smartphones''" _ "init_state 1000"
      LLMError LLMError "''topic''" "Some ''r1''"]
  by (simp add: env_llm_down_facts) (simp add: init_state_def submitted_def)

text \<open>
  C3. No comment receives more than one reply from the bot: in a run of a fresh agent,
  and in a monitoring loop entered before any reply to that comment was posted, at
  most one reply to a given comment id is posted. A comment whose id is in the set of
  generated replies is skipped, and whatever that set holds, the loop leaves the
  replies posted to each comment, and the set itself, as they were. (The snapshot of
  a reply-worthy comment reaches \<open>add_reply\<close> as its only argument before any reply
  is drafted, so the pass ends there.)
\<close>

theorem at_most_one_reply_per_comment:
  "length (filter (\<lambda>x. fst x = cid) (replied (snd (run_research v e p sn rid (init_state now)))))
     \<le> 1
   \<and> (filter (\<lambda>x. fst x = cid) (replied s) = []
        \<longrightarrow> length (filter (\<lambda>x. fst x = cid)
                     (replied (snd (monitor v e post_id post_content start {||} s)))) \<le> 1)
   \<and> (comment_id c |\<in>| g \<longrightarrow> process_comment v e post_content score c g s = (None, g, s))
   \<and> filter (\<lambda>x. fst x = cid) (replied (snd (monitor v e post_id post_content start g s)))
       = filter (\<lambda>x. fst x = cid) (replied s)
   \<and> fst (monitor v e post_id post_content start g s) = g"
  using monitor_frame [of v e post_id post_content start g s]
    monitor_frame [of v e post_id post_content start "{||}" s]
  by (simp add: run_research_fresh_replied process_comment_eq)

theorem at_most_one_reply_per_comment_witness:
  "filter (\<lambda>x. fst x = ''c1'') (replied loop_entry) = []
   \<and> length (filter (\<lambda>x. fst x = ''c1'')
        (replied (snd (monitor OpenAI env_worthy ''p1'' ''Title'' 1000 {||} loop_entry)))) \<le> 1
   \<and> comment_id worthy_comment |\<in>| {|''c1''|}
   \<and> should_reply worthy_comment 100 = Inr True
   \<and> process_comment OpenAI env_worthy ''Title'' 100 worthy_comment {|''c1''|} loop_entry
       = (None, {|''c1''|}, loop_entry)"
  using at_most_one_reply_per_comment [where cid = "''c1''" and s = loop_entry and v = OpenAI
      and e = env_worthy and post_id = "''p1''" and post_content = "''Title''" and start = 1000
      and c = worthy_comment and g = "{|''c1''|}" and score = 100]
  by (simp add: replied_def loop_entry_def init_state_def worthy_comment_def
      should_reply_small)

text \<open>
  C5. The replies posted by the bot, and the bot-authored snapshots in a research
  record, never number more than \<open>max_replies_per_thread\<close>, which is 4: in a run of a
  fresh agent, and in a monitoring loop entered before any reply was posted. When the
  set of generated replies already holds that many ids, processing a comment posts
  nothing.
\<close>

theorem replies_never_exceed_cap:
  "max_replies_per_thread = 4
   \<and> length (replied (snd (run_research v e p sn rid (init_state now))))
       \<le> max_replies_per_thread
   \<and> (\<forall>r. data (snd (run_research v e p sn rid (init_state now))) k = Some r
        \<longrightarrow> length (bot_snapshots r) \<le> max_replies_per_thread)
   \<and> (replied s = []
        \<longrightarrow> length (replied (snd (monitor v e post_id post_content start {||} s)))
              \<le> max_replies_per_thread)
   \<and> data (snd (monitor v e post_id post_content start g s)) = data s
   \<and> (max_replies_per_thread \<le> fcard g
        \<longrightarrow> replied (snd (snd (process_comment v e post_content score c g s))) = replied s)"
  using monitor_frame [of v e post_id post_content start "{||}" s]
    monitor_frame [of v e post_id post_content start g s]
    run_research_fresh_snapshots [of v e p sn rid now k]
  by (simp add: run_research_fresh_replied process_comment_replied max_replies_per_thread_def)

theorem replies_never_exceed_cap_witness:
  "(\<exists>r. data (snd (run_research OpenAI env_ok ''topic'' ''smartphones'' (Some ''r1'')
       (init_state 1000))) (PStr ''r1'') = Some r \<and> length (bot_snapshots r) \<le> 4)
   \<and> replied loop_entry = []
   \<and> length (replied (snd (monitor OpenAI env_worthy ''p1'' ''Title'' 1000 {||} loop_entry)))
       \<le> 4
   \<and> max_replies_per_thread \<le> fcard {|''r1'', ''r2'', ''r3'', ''r4''|}
   \<and> replied (snd (snd (process_comment OpenAI env_worthy ''Title'' 100 worthy_comment
         {|''r1'', ''r2'', ''r3'', ''r4''|} loop_entry))) = []"
proof -
  have d: "data (snd (run_research OpenAI env_ok ''topic'' ''smartphones'' (Some ''r1'')
       (init_state 1000))) (PStr ''r1'') \<noteq> None"
    by (simp add: run_research_def make_post_eq Let_def initialize_research_def
      get_subreddit_def analyze_subreddit_def generate_post_def ask_def provider_def
      platform_def external_def print_line_def respect_rate_limit_def
      sleep_def env_ok_def init_state_def rate_limit_delay_def)
  have c: "max_replies_per_thread \<le> fcard {|''r1'', ''r2'', ''r3'', ''r4''|}"
    by (simp add: max_replies_per_thread_def fcard_finsert_if)
  have l: "replied loop_entry = []"
    by (simp add: replied_def loop_entry_def init_state_def)
  note w = replies_never_exceed_cap [where v = OpenAI and e = env_ok and p = "''topic''"
        and sn = "''smartphones''" and rid = "Some ''r1''" and now = 1000
        and k = "PStr ''r1''" and s = loop_entry
        and post_id = "''p1''" and post_content = "''Title''" and start = 1000
        and c = worthy_comment and g = "{|''r1'', ''r2'', ''r3'', ''r4''|}" and score = 100]
  note x = replies_never_exceed_cap [where v = OpenAI and e = env_worthy and p = "''topic''"
        and sn = "''smartphones''" and rid = "Some ''r1''" and now = 1000
        and k = "PStr ''r1''" and s = loop_entry
        and post_id = "''p1''" and post_content = "''Title''" and start = 1000
        and c = worthy_comment and g = "{|''r1'', ''r2'', ''r3'', ''r4''|}" and score = 100]
  have "\<exists>r. data (snd (run_research OpenAI env_ok ''topic'' ''smartphones'' (Some ''r1'')
       (init_state 1000))) (PStr ''r1'') = Some r \<and> length (bot_snapshots r) \<le> 4"
    using w d by auto
  moreover have "length (replied (snd (monitor OpenAI env_worthy ''p1'' ''Title'' 1000 {||}
       loop_entry))) \<le> 4"
    using x l by simp
  moreover have "replied (snd (snd (process_comment OpenAI env_worthy ''Title'' 100
        worthy_comment {|''r1'', ''r2'', ''r3'', ''r4''|} loop_entry))) = []"
    using x c l by simp
  ultimately show ?thesis using c l by (simp only: simp_thms)
qed


end
